theory Spec2Isabelle
  imports Main
begin

section \<open>The scheduler of pg\_timetable: chain execution, polling, workers\<close>

text \<open>
  A shallow embedding of \<^verbatim>\<open>internal/scheduler/scheduler.go\<close>. The functions of that file
  are translated one by one. Everything they call outside the file (the package
  \<^verbatim>\<open>pgengine\<close>, the package \<^verbatim>\<open>tasks\<close>, \<^verbatim>\<open>executeShellCommand\<close>, the clock, the
  \<^verbatim>\<open>select\<close> statements on a timer and on the context) is a parameter: a field of the
  record \<open>env\<close>. Every such call is appended to a history, the list of calls made so
  far, and the answer of a call is a function of that history and of the call's
  arguments, so that the same call may answer differently each time it is made.

  Every call that leaves the file is taken to return: a send on the channel finds a
  receiver, and \<^verbatim>\<open>MustRollbackTransaction\<close> and \<^verbatim>\<open>MustCommitTransaction\<close> come back. The
  loops that the file itself may keep running forever take fuel. Go's \<^verbatim>\<open>int\<close> is
  \<open>int\<close> here: the file computes with it only in \<^verbatim>\<open>refetchTimeout*1000/headChainsCount\<close>,
  on a count above 960, where nothing overflows and Go's division is \<open>div\<close>.
\<close>

subsection \<open>Constants\<close>

definition workersNumber :: nat where
  "workersNumber = 16"

definition refetchTimeout :: int where
  "refetchTimeout = 60"

definition maxChainsThreshold :: int where
  "maxChainsThreshold = int workersNumber * refetchTimeout"

text \<open>The units of Go's \<^verbatim>\<open>time.Duration\<close>, which counts nanoseconds.\<close>

definition Millisecond :: int where
  "Millisecond = 1000000"

definition Second :: int where
  "Second = 1000 * Millisecond"

text \<open>
  The three queries \<^verbatim>\<open>Run\<close> hands out. Only their identity matters to the scheduler;
  \<^verbatim>\<open>sqlSelectIntervalChains\<close> is declared in another file.
\<close>

datatype sql = sqlSelectChains | sqlSelectRebootChains | sqlSelectIntervalChains

subsection \<open>Data\<close>

type_synonym error = string

record Chain =
  ChainExecutionConfigID :: int
  ChainID :: int
  ChainName :: string
  SelfDestruct :: bool
  ExclusiveExecution :: bool
  MaxInstances :: int

text \<open>
  Modelled from the spec: the type \<^verbatim>\<open>pgengine.ChainElementExecution\<close> is declared outside
  the file. The record has the fields that the scheduler reads or writes, with the
  chain identifier under the name \<open>ElemChainID\<close> (the source's field \<^verbatim>\<open>ChainID\<close>).
  \<open>StartedAt\<close> is a reading of the clock, \<open>Duration\<close> a number of microseconds.
\<close>

record ChainElementExecution =
  ChainConfig :: int
  ElemChainID :: int
  TaskName :: string
  Script :: string
  Kind :: string
  IgnoreError :: bool
  StartedAt :: int
  Duration :: int

text \<open>The zero value of the struct, as a Go composite literal leaves unnamed fields.\<close>

definition zeroElement :: ChainElementExecution where
  "zeroElement = \<lparr>ChainConfig = 0, ElemChainID = 0, TaskName = [], Script = [], Kind = [],
     IgnoreError = False, StartedAt = 0, Duration = 0\<rparr>"

datatype RunStatus = ConnectionDroppped | ContextCancelled

text \<open>
  The arguments of a log call. A message built by \<^verbatim>\<open>fmt.Sprintf\<close> or \<^verbatim>\<open>fmt.Sprint\<close> is
  kept as the format with its arguments; the text is not rendered.
\<close>

datatype val =
    VStr string
  | VInt int
  | VChain Chain
  | VElem ChainElementExecution
  | Sprintf string "val list"
  | Sprint "val list"

text \<open>
  One constructor for every call that leaves the file, with its arguments and, where
  the scheduler branches on it, its answer.
\<close>

datatype event =
    TryLockClientName bool
  | TimeAfter int
  | CtxDone
  | LogToDB string "val list"
  | GoChainWorker
  | GoIntervalChainWorker
  | SetMaxOpenConns nat
  | FixSchedulerCrash
  | RetriveIntervalChainsAndRun sql
  | IsAlive bool
  | SelectContext sql string bool
  | Sleep int
  | SendChains Chain
  | CanProceedChainExecution int int bool
  | DeleteChainConfig int
  | StartTransaction bool
  | GetChainElements int bool
  | MustRollbackTransaction
  | MustCommitTransaction
  | InsertChainRunStatus int int int
  | UpdateChainRunStatus ChainElementExecution int string
  | GetChainParamValues ChainElementExecution bool
  | ExecuteSQLTask ChainElementExecution "string list"
  | ExecuteShellCommand string "string list"
  | ExecuteTask string "string list"
  | LogChainElementExecution ChainElementExecution int string

type_synonym history = "event list"

text \<open>Which case of a \<^verbatim>\<open>select\<close> on a timer and on \<^verbatim>\<open>ctx.Done()\<close> is taken.\<close>

datatype wake = Timer | Done

text \<open>
  The collaborators. A call through a pointer to a chain element is taken to read the
  element only. \<open>envStartTransaction\<close> answers the error, \<open>None\<close> for a transaction;
  \<open>envGetChainElements\<close> and \<open>envGetChainParamValues\<close> answer the boolean result and the
  slice they fill; \<open>envSelectContext\<close> the error and the slice it fills;
  \<open>envExecuteShellCommand\<close> the code, the output and the error.
\<close>

record env =
  envClientName :: string
  envNoShellTasks :: bool
  envWaitTime :: int
  envSelect :: "history \<Rightarrow> wake"
  envTryLockClientName :: "history \<Rightarrow> bool"
  envIsAlive :: "history \<Rightarrow> bool"
  envSelectContext :: "history \<Rightarrow> sql \<Rightarrow> string \<Rightarrow> error option \<times> Chain list"
  envCanProceedChainExecution :: "history \<Rightarrow> int \<Rightarrow> int \<Rightarrow> bool"
  envStartTransaction :: "history \<Rightarrow> error option"
  envGetChainElements :: "history \<Rightarrow> int \<Rightarrow> bool \<times> ChainElementExecution list"
  envInsertChainRunStatus :: "history \<Rightarrow> int \<Rightarrow> int \<Rightarrow> int"
  envGetChainParamValues :: "history \<Rightarrow> ChainElementExecution \<Rightarrow> bool \<times> string list"
  envExecuteSQLTask :: "history \<Rightarrow> ChainElementExecution \<Rightarrow> string list \<Rightarrow> error option"
  envExecuteShellCommand :: "history \<Rightarrow> string \<Rightarrow> string list \<Rightarrow> int \<times> string \<times> error option"
  envExecuteTask :: "history \<Rightarrow> string \<Rightarrow> string list \<Rightarrow> error option"
  envNow :: "history \<Rightarrow> int"
  envSinceMicroseconds :: "history \<Rightarrow> int \<Rightarrow> int"
  envTrimSpace :: "string \<Rightarrow> string"

subsection \<open>executeChainElement\<close>

text \<open>
  The \<^verbatim>\<open>switch\<close> on the kind of the element: the code, the output and the error it
  leaves in \<^verbatim>\<open>retCode\<close>, \<^verbatim>\<open>out\<close> and \<^verbatim>\<open>err\<close>, and the history after it. The case
  \<^verbatim>\<open>"SHELL"\<close> is entered here with shell tasks allowed; the early return of that case
  is in \<open>executeChainElement\<close>. A kind that no case names leaves the three variables
  at their zero values.
\<close>

definition switchKind ::
  "env \<Rightarrow> history \<Rightarrow> ChainElementExecution \<Rightarrow> string list
     \<Rightarrow> int \<times> string \<times> error option \<times> history" where
  "switchKind e h el paramValues =
     (if Kind el = ''SQL'' then
        (0, [], envExecuteSQLTask e h el paramValues, h @ [ExecuteSQLTask el paramValues])
      else if Kind el = ''SHELL'' then
        (case envExecuteShellCommand e h (Script el) paramValues of
           (retCode, out, err) \<Rightarrow>
             (retCode, out, err, h @ [ExecuteShellCommand (Script el) paramValues]))
      else if Kind el = ''BUILTIN'' then
        (0, [], envExecuteTask e h (TaskName el) paramValues,
         h @ [ExecuteTask (TaskName el) paramValues])
      else (0, [], None, h))"

text \<open>
  The result is the returned code, the element as the call leaves it behind the
  pointer, and the history.
\<close>

definition executeChainElement ::
  "env \<Rightarrow> history \<Rightarrow> ChainElementExecution \<Rightarrow> int \<times> ChainElementExecution \<times> history" where
  "executeChainElement e h el =
     (let h1 = h @ [LogToDB ''DEBUG'' [Sprintf ''Executing task: %s'' [VElem el]]];
          (ok, paramValues) = envGetChainParamValues e h1 el;
          h2 = h1 @ [GetChainParamValues el ok]
      in if \<not> ok then (- 1, el, h2)
         else
           let el1 = el\<lparr>StartedAt := envNow e h2\<rparr>
           in if Kind el1 = ''SHELL'' \<and> envNoShellTasks e then
                (- 1, el1, h2 @ [LogToDB ''LOG'' [VStr ''Shell task execution skipped: '', VElem el1]])
              else
                let (retCode, out, err, h3) = switchKind e h2 el1 paramValues;
                    el2 = el1\<lparr>Duration := envSinceMicroseconds e h3 (StartedAt el1)\<rparr>;
                    h4 = h3 @ [LogChainElementExecution el2 retCode (envTrimSpace e out)]
                in case err of
                     Some er \<Rightarrow>
                       (if retCode \<noteq> 0 then retCode else - 1, el2,
                        h4 @ [LogToDB ''ERROR''
                               [Sprintf ''Task execution failed: %s; Error: %s'' [VElem el2, VStr er]]])
                   | None \<Rightarrow>
                       (0, el2,
                        h4 @ [LogToDB ''DEBUG'' [Sprintf ''Task executed successfully: %s'' [VElem el2]]]))"

subsection \<open>executeChain\<close>

text \<open>
  The loop over the elements. The boolean is \<open>True\<close> when the loop ran to its end and
  \<open>False\<close> when it left the function by the \<^verbatim>\<open>return\<close> in its body.
\<close>

fun chainLoop ::
  "env \<Rightarrow> int \<Rightarrow> int \<Rightarrow> int \<Rightarrow> history \<Rightarrow> ChainElementExecution list \<Rightarrow> bool \<times> history" where
  "chainLoop e chainConfigID chainID runStatusID h [] = (True, h)"
| "chainLoop e chainConfigID chainID runStatusID h (x # xs) =
     (let chainElemExec = x\<lparr>ChainConfig := chainConfigID\<rparr>;
          h1 = h @ [UpdateChainRunStatus chainElemExec runStatusID ''STARTED''];
          (retCode, chainElemExec', h2) = executeChainElement e h1 chainElemExec
      in if retCode \<noteq> 0 \<and> \<not> IgnoreError chainElemExec' then
           (False,
            h2 @ [LogToDB ''ERROR'' [Sprintf ''Chain ID: %d failed'' [VInt chainID]],
                  UpdateChainRunStatus chainElemExec' runStatusID ''CHAIN_FAILED'',
                  MustRollbackTransaction])
         else
           chainLoop e chainConfigID chainID runStatusID
             (h2 @ [UpdateChainRunStatus chainElemExec' runStatusID ''CHAIN_DONE'']) xs)"

definition executeChain :: "env \<Rightarrow> history \<Rightarrow> int \<Rightarrow> int \<Rightarrow> history" where
  "executeChain e h chainConfigID chainID =
     (case envStartTransaction e h of
        Some err \<Rightarrow>
          h @ [StartTransaction False,
               LogToDB ''ERROR'' [Sprint [VStr ''Cannot start transaction: '', VStr err]]]
      | None \<Rightarrow>
          let h1 = h @ [StartTransaction True,
                        LogToDB ''LOG'' [Sprintf ''Starting chain ID: %d; configuration ID: %d''
                                          [VInt chainID, VInt chainConfigID]]];
              (ok, ChainElements) = envGetChainElements e h1 chainID;
              h2 = h1 @ [GetChainElements chainID ok]
          in if \<not> ok then h2 @ [MustRollbackTransaction]
             else
               let runStatusID = envInsertChainRunStatus e h2 chainConfigID chainID;
                   h3 = h2 @ [InsertChainRunStatus chainConfigID chainID runStatusID]
               in (case chainLoop e chainConfigID chainID runStatusID h3 ChainElements of
                    (False, h4) \<Rightarrow> h4
                  | (True, h4) \<Rightarrow>
                      h4 @ [LogToDB ''LOG''
                              [Sprintf ''Executed successfully chain ID: %d; configuration ID: %d''
                                 [VInt chainID, VInt chainConfigID]],
                            UpdateChainRunStatus
                              (zeroElement\<lparr>ElemChainID := chainID, ChainConfig := chainConfigID\<rparr>)
                              runStatusID ''CHAIN_DONE'',
                            MustCommitTransaction]))"

subsection \<open>retriveChainsAndRun\<close>

text \<open>
  The loop that puts the fetched chains on the channel, \<open>headChainsCount\<close> being the
  length of the whole slice. A send on the channel is recorded; who receives it is
  outside this function.
\<close>

fun sendLoop :: "int \<Rightarrow> history \<Rightarrow> Chain list \<Rightarrow> history" where
  "sendLoop headChainsCount h [] = h"
| "sendLoop headChainsCount h (headChain # rest) =
     sendLoop headChainsCount
       ((if headChainsCount > maxChainsThreshold
         then h @ [Sleep ((refetchTimeout * 1000 div headChainsCount) * Millisecond)]
         else h)
        @ [LogToDB ''DEBUG''
             [Sprintf ''Putting head chain %s to the execution channel'' [VChain headChain]],
           SendChains headChain])
       rest"

definition retriveChainsAndRun :: "env \<Rightarrow> history \<Rightarrow> sql \<Rightarrow> history" where
  "retriveChainsAndRun e h q =
     (case envSelectContext e h q (envClientName e) of
        (Some err, headChains) \<Rightarrow>
          h @ [SelectContext q (envClientName e) False,
               LogToDB ''ERROR'' [VStr ''Could not query pending tasks: '', VStr err]]
      | (None, headChains) \<Rightarrow>
          let headChainsCount = int (length headChains)
          in sendLoop headChainsCount
               (h @ [SelectContext q (envClientName e) True,
                     LogToDB ''LOG'' [VStr ''Number of chains to be executed: '', VInt headChainsCount]])
               headChains)"

subsection \<open>chainWorker\<close>

text \<open>
  The loop that waits until the chain may proceed. It may run forever, so it takes
  fuel, the number of probes it may make: \<open>None\<close> is a loop still waiting when the fuel
  is spent, \<open>Some (True, h)\<close> a chain that may proceed, \<open>Some (False, h)\<close> the
  \<^verbatim>\<open>return\<close> on a cancelled context.
\<close>

fun proceedLoop :: "nat \<Rightarrow> env \<Rightarrow> Chain \<Rightarrow> history \<Rightarrow> (bool \<times> history) option" where
  "proceedLoop 0 e chain h = None"
| "proceedLoop (Suc n) e chain h =
     (let ok = envCanProceedChainExecution e h (ChainExecutionConfigID chain) (MaxInstances chain);
          h1 = h @ [CanProceedChainExecution (ChainExecutionConfigID chain) (MaxInstances chain) ok]
      in if ok then Some (True, h1)
         else
           let h2 = h1 @ [LogToDB ''DEBUG''
                            [Sprintf ''Cannot proceed with chain %s. Sleeping...'' [VChain chain]]]
           in (case envSelect e h2 of
                 Timer \<Rightarrow> proceedLoop n e chain (h2 @ [TimeAfter (envWaitTime e * Second)])
               | Done \<Rightarrow> Some (False, h2 @ [CtxDone, LogToDB ''ERROR'' [VStr ''request cancelled\<newline>'']])))"

text \<open>
  The worker, on the chains it receives until the channel is closed. The fuel is that
  of each wait.
\<close>

fun chainWorker :: "nat \<Rightarrow> env \<Rightarrow> history \<Rightarrow> Chain list \<Rightarrow> history option" where
  "chainWorker n e h [] = Some h"
| "chainWorker n e h (chain # rest) =
     (case proceedLoop n e chain
             (h @ [LogToDB ''DEBUG'' [Sprintf ''Calling process chain for %s'' [VChain chain]]]) of
        None \<Rightarrow> None
      | Some (False, h1) \<Rightarrow> Some h1
      | Some (True, h1) \<Rightarrow>
          let h2 = executeChain e h1 (ChainExecutionConfigID chain) (ChainID chain)
          in chainWorker n e
               (if SelfDestruct chain then h2 @ [DeleteChainConfig (ChainExecutionConfigID chain)]
                else h2)
               rest)"

subsection \<open>Run\<close>

text \<open>
  The loop on the client name's lock: \<open>Some (True, h)\<close> when the lock is taken,
  \<open>Some (False, h)\<close> when the function returns \<^verbatim>\<open>ContextCancelled\<close> from inside the loop,
  \<open>None\<close> when the fuel is spent.
\<close>

fun lockLoop :: "nat \<Rightarrow> env \<Rightarrow> history \<Rightarrow> (bool \<times> history) option" where
  "lockLoop 0 e h = None"
| "lockLoop (Suc n) e h =
     (let locked = envTryLockClientName e h;
          h1 = h @ [TryLockClientName locked]
      in if locked then Some (True, h1)
         else (case envSelect e h1 of
                 Timer \<Rightarrow> lockLoop n e (h1 @ [TimeAfter (refetchTimeout * Second)])
               | Done \<Rightarrow> Some (False, h1 @ [CtxDone, LogToDB ''ERROR'' [VStr ''request cancelled\<newline>'']])))"

text \<open>The \<^verbatim>\<open>for\<close> without a condition at the end of \<^verbatim>\<open>Run\<close>, on fuel as well.\<close>

fun foreverLoop :: "nat \<Rightarrow> env \<Rightarrow> history \<Rightarrow> (RunStatus \<times> history) option" where
  "foreverLoop 0 e h = None"
| "foreverLoop (Suc n) e h =
     (let h1 = retriveChainsAndRun e (h @ [LogToDB ''LOG'' [VStr ''Checking for task chains...'']])
                 sqlSelectChains;
          h2 = h1 @ [LogToDB ''LOG'' [VStr ''Checking for interval task chains...''],
                     RetriveIntervalChainsAndRun sqlSelectIntervalChains]
      in (case envSelect e h2 of
            Timer \<Rightarrow>
              (let h3 = h2 @ [TimeAfter (refetchTimeout * Second)];
                   alive = envIsAlive e h3
               in if \<not> alive then Some (ConnectionDroppped, h3 @ [IsAlive alive])
                  else foreverLoop n e (h3 @ [IsAlive alive]))
          | Done \<Rightarrow>
              Some (ContextCancelled,
                    h2 @ [CtxDone, LogToDB ''ERROR'' [VStr ''request cancelled\<newline>'']])))"

text \<open>
  \<^verbatim>\<open>Run\<close>. Starting a worker is recorded as one call; what the workers do is the
  function \<open>chainWorker\<close>.
\<close>

definition Run :: "nat \<Rightarrow> env \<Rightarrow> history \<Rightarrow> (RunStatus \<times> history) option" where
  "Run n e h =
     (case lockLoop n e h of
        None \<Rightarrow> None
      | Some (False, h1) \<Rightarrow> Some (ContextCancelled, h1)
      | Some (True, h1) \<Rightarrow>
          let h2 = h1 @ concat (replicate workersNumber [GoChainWorker, GoIntervalChainWorker])
                      @ [SetMaxOpenConns (workersNumber + 1),
                         FixSchedulerCrash,
                         LogToDB ''LOG'' [VStr ''Checking for @reboot task chains...'']];
              h3 = retriveChainsAndRun e h2 sqlSelectRebootChains
          in foreverLoop n e h3)"

subsection \<open>What a history shows\<close>

text \<open>
  Readings of a history, by which the properties are stated: the status labels written
  by \<^verbatim>\<open>UpdateChainRunStatus\<close>, in order; the elements whose execution was entered (each
  call of \<open>executeChainElement\<close> asks once for the parameter values of its element); the
  calls of the three task backends; the run headers inserted; the sleeps and the sends
  on the channel; the configurations deleted.
\<close>

fun statusOf :: "event \<Rightarrow> string list" where
  "statusOf (UpdateChainRunStatus el r s) = [s]"
| "statusOf _ = []"

definition statuses :: "history \<Rightarrow> string list" where
  "statuses h = concat (map statusOf h)"

fun executedOf :: "event \<Rightarrow> ChainElementExecution list" where
  "executedOf (GetChainParamValues el ok) = [el]"
| "executedOf _ = []"

definition executed :: "history \<Rightarrow> ChainElementExecution list" where
  "executed h = concat (map executedOf h)"

fun isBackendCall :: "event \<Rightarrow> bool" where
  "isBackendCall (ExecuteSQLTask el ps) = True"
| "isBackendCall (ExecuteShellCommand s ps) = True"
| "isBackendCall (ExecuteTask s ps) = True"
| "isBackendCall _ = False"

definition backendCalls :: "history \<Rightarrow> event list" where
  "backendCalls h = filter isBackendCall h"

fun headerOf :: "event \<Rightarrow> (int \<times> int \<times> int) list" where
  "headerOf (InsertChainRunStatus c i r) = [(c, i, r)]"
| "headerOf _ = []"

definition headers :: "history \<Rightarrow> (int \<times> int \<times> int) list" where
  "headers h = concat (map headerOf h)"

fun paceOf :: "event \<Rightarrow> event list" where
  "paceOf (Sleep d) = [Sleep d]"
| "paceOf (SendChains c) = [SendChains c]"
| "paceOf _ = []"

definition pacing :: "history \<Rightarrow> event list" where
  "pacing h = concat (map paceOf h)"

fun deletedOf :: "event \<Rightarrow> int list" where
  "deletedOf (DeleteChainConfig c) = [c]"
| "deletedOf _ = []"

definition deleted :: "history \<Rightarrow> int list" where
  "deleted h = concat (map deletedOf h)"

text \<open>
  Modelled from the spec: \<^verbatim>\<open>pgengine.DeleteChainConfig\<close> is outside the file. By the spec,
  \<^verbatim>\<open>deleteChainConfiguration(configID)\<close> takes the configuration out of the store, so
  the configurations that a later query can find eligible are those not deleted.
\<close>

definition eligibleAfter :: "history \<Rightarrow> int list \<Rightarrow> int list" where
  "eligibleAfter h configs = filter (\<lambda>c. c \<notin> set (deleted h)) configs"

subsection \<open>Points of the control flow\<close>

text \<open>
  Names for the histories at which the functions above ask their collaborators, so that
  a hypothesis can say what a collaborator answers there. In \<open>executeChain\<close> started at
  \<open>h\<close>: \<open>fetchPoint\<close> is the history at which the elements are fetched, \<open>loopEntry\<close> the
  identifier of the run and the history with which the loop is entered, \<open>chainDone\<close> what
  the function appends after a loop that ran to its end. In \<open>executeChainElement\<close>:
  \<open>paramPoint\<close> is the history at which the parameter values are asked for,
  \<open>dispatchPoint\<close> the one at which the \<^verbatim>\<open>switch\<close> is entered. In \<open>chainWorker\<close>:
  \<open>admissionPoint\<close> is the history at which the wait for the chain begins. In
  \<open>foreverLoop\<close>: \<open>pollPoint\<close> is the history at the \<^verbatim>\<open>select\<close> that ends a cycle.
  \<open>requestCancelled\<close> is what every \<^verbatim>\<open>case <-ctx.Done()\<close> of the file appends.
\<close>

definition fetchPoint :: "history \<Rightarrow> int \<Rightarrow> int \<Rightarrow> history" where
  "fetchPoint h chainConfigID chainID =
     h @ [StartTransaction True,
          LogToDB ''LOG'' [Sprintf ''Starting chain ID: %d; configuration ID: %d''
                            [VInt chainID, VInt chainConfigID]]]"

definition loopEntry :: "env \<Rightarrow> history \<Rightarrow> int \<Rightarrow> int \<Rightarrow> int \<times> history" where
  "loopEntry e h chainConfigID chainID =
     (let h2 = fetchPoint h chainConfigID chainID @ [GetChainElements chainID True];
          runStatusID = envInsertChainRunStatus e h2 chainConfigID chainID
      in (runStatusID, h2 @ [InsertChainRunStatus chainConfigID chainID runStatusID]))"

definition chainDone :: "int \<Rightarrow> int \<Rightarrow> int \<Rightarrow> history" where
  "chainDone chainConfigID chainID runStatusID =
     [LogToDB ''LOG'' [Sprintf ''Executed successfully chain ID: %d; configuration ID: %d''
                        [VInt chainID, VInt chainConfigID]],
      UpdateChainRunStatus (zeroElement\<lparr>ElemChainID := chainID, ChainConfig := chainConfigID\<rparr>)
        runStatusID ''CHAIN_DONE'',
      MustCommitTransaction]"

definition paramPoint :: "history \<Rightarrow> ChainElementExecution \<Rightarrow> history" where
  "paramPoint h el = h @ [LogToDB ''DEBUG'' [Sprintf ''Executing task: %s'' [VElem el]]]"

definition dispatchPoint :: "history \<Rightarrow> ChainElementExecution \<Rightarrow> history" where
  "dispatchPoint h el = paramPoint h el @ [GetChainParamValues el True]"

definition admissionPoint :: "history \<Rightarrow> Chain \<Rightarrow> history" where
  "admissionPoint h chain =
     h @ [LogToDB ''DEBUG'' [Sprintf ''Calling process chain for %s'' [VChain chain]]]"

definition requestCancelled :: history where
  "requestCancelled = [CtxDone, LogToDB ''ERROR'' [VStr ''request cancelled\<newline>'']]"

definition pollPoint :: "env \<Rightarrow> history \<Rightarrow> history" where
  "pollPoint e h =
     retriveChainsAndRun e (h @ [LogToDB ''LOG'' [VStr ''Checking for task chains...'']])
       sqlSelectChains
     @ [LogToDB ''LOG'' [VStr ''Checking for interval task chains...''],
        RetriveIntervalChainsAndRun sqlSelectIntervalChains]"

text \<open>
  The iterations of the two loops of \<^verbatim>\<open>Run\<close> started at \<open>h\<close>. \<open>lockWait i h\<close> is the
  history at attempt \<open>i\<close> on the lock, after \<open>i\<close> failed attempts each followed by the
  timer; \<open>lockDenied e h i\<close> says that the collaborators answer so on the first \<open>i\<close>
  attempts, and \<open>cancelledAtLock e h i\<close> that attempt \<open>i\<close> fails as well and the
  \<^verbatim>\<open>select\<close> after it sees the cancelled context. \<open>mainEntry e h1\<close> is the history with
  which the endless loop is entered when the lock was taken at \<open>h1\<close>: the workers are
  started and the chains of \<^verbatim>\<open>@reboot\<close> are sent. \<open>cycleStart e k h\<close> is the history at the
  start of cycle \<open>k\<close> of that loop, after \<open>k\<close> cycles that each ended with the timer and a
  live connection; \<open>cyclesAlive e h k\<close> says that the collaborators answer so in the first
  \<open>k\<close> cycles. \<open>reachesCycle e h i k\<close> says that the lock is taken at attempt \<open>i\<close> and cycle
  \<open>k\<close> is reached, and \<open>cyclePoll e h i k\<close> is then the history at the \<^verbatim>\<open>select\<close> that
  ends cycle \<open>k\<close>.
\<close>

fun lockWait :: "nat \<Rightarrow> history \<Rightarrow> history" where
  "lockWait 0 h = h"
| "lockWait (Suc j) h =
     lockWait j (h @ [TryLockClientName False, TimeAfter (refetchTimeout * Second)])"

definition mainEntry :: "env \<Rightarrow> history \<Rightarrow> history" where
  "mainEntry e h1 =
     retriveChainsAndRun e
       (h1 @ concat (replicate workersNumber [GoChainWorker, GoIntervalChainWorker])
           @ [SetMaxOpenConns (workersNumber + 1),
              FixSchedulerCrash,
              LogToDB ''LOG'' [VStr ''Checking for @reboot task chains...'']])
       sqlSelectRebootChains"

fun cycleStart :: "env \<Rightarrow> nat \<Rightarrow> history \<Rightarrow> history" where
  "cycleStart e 0 h = h"
| "cycleStart e (Suc j) h =
     cycleStart e j (pollPoint e h @ [TimeAfter (refetchTimeout * Second), IsAlive True])"

definition lockDenied :: "env \<Rightarrow> history \<Rightarrow> nat \<Rightarrow> bool" where
  "lockDenied e h i =
     (\<forall>j\<in>{..<i}. \<not> envTryLockClientName e (lockWait j h)
                  \<and> envSelect e (lockWait j h @ [TryLockClientName False]) = Timer)"

definition cyclesAlive :: "env \<Rightarrow> history \<Rightarrow> nat \<Rightarrow> bool" where
  "cyclesAlive e h k =
     (\<forall>j\<in>{..<k}. envSelect e (pollPoint e (cycleStart e j h)) = Timer
                  \<and> envIsAlive e (pollPoint e (cycleStart e j h)
                                   @ [TimeAfter (refetchTimeout * Second)]))"

definition cancelledAtLock :: "env \<Rightarrow> history \<Rightarrow> nat \<Rightarrow> bool" where
  "cancelledAtLock e h i =
     (lockDenied e h i
      \<and> \<not> envTryLockClientName e (lockWait i h)
      \<and> envSelect e (lockWait i h @ [TryLockClientName False]) = Done)"

definition reachesCycle :: "env \<Rightarrow> history \<Rightarrow> nat \<Rightarrow> nat \<Rightarrow> bool" where
  "reachesCycle e h i k =
     (lockDenied e h i
      \<and> envTryLockClientName e (lockWait i h)
      \<and> cyclesAlive e (mainEntry e (lockWait i h @ [TryLockClientName True])) k)"

definition cyclePoll :: "env \<Rightarrow> history \<Rightarrow> nat \<Rightarrow> nat \<Rightarrow> history" where
  "cyclePoll e h i k =
     pollPoint e (cycleStart e k (mainEntry e (lockWait i h @ [TryLockClientName True])))"

subsection \<open>Sample inputs\<close>

text \<open>
  Concrete elements, a concrete chain and concrete collaborators, on which the
  properties are instantiated: an SQL statement that succeeds, the shell command
  \<^verbatim>\<open>exit 1\<close> that fails with code 1, a built-in task that succeeds, an element of a
  kind the \<^verbatim>\<open>switch\<close> does not name. In \<open>sampleEnv xs\<close> the lock is free, every chain may
  proceed, the fetched elements are \<open>xs\<close>, no chain is due, the context is cancelled at
  every \<^verbatim>\<open>select\<close>, and the clock counts the calls made.
\<close>

definition sqlElement :: ChainElementExecution where
  "sqlElement = \<lparr>ChainConfig = 0, ElemChainID = 3, TaskName = ''update'',
     Script = ''UPDATE t SET x=1'', Kind = ''SQL'', IgnoreError = False,
     StartedAt = 0, Duration = 0\<rparr>"

definition shellElement :: "bool \<Rightarrow> ChainElementExecution" where
  "shellElement ignore = \<lparr>ChainConfig = 0, ElemChainID = 3, TaskName = ''fail'',
     Script = ''exit 1'', Kind = ''SHELL'', IgnoreError = ignore,
     StartedAt = 0, Duration = 0\<rparr>"

definition builtinElement :: ChainElementExecution where
  "builtinElement = \<lparr>ChainConfig = 0, ElemChainID = 3, TaskName = ''NoOp'',
     Script = [], Kind = ''BUILTIN'', IgnoreError = False,
     StartedAt = 0, Duration = 0\<rparr>"

definition otherElement :: ChainElementExecution where
  "otherElement = \<lparr>ChainConfig = 0, ElemChainID = 3, TaskName = ''report'',
     Script = ''print'', Kind = ''PYTHON'', IgnoreError = False,
     StartedAt = 0, Duration = 0\<rparr>"

definition sampleChain :: "bool \<Rightarrow> Chain" where
  "sampleChain destruct = \<lparr>ChainExecutionConfigID = 7, ChainID = 3, ChainName = ''nightly'',
     SelfDestruct = destruct, ExclusiveExecution = False, MaxInstances = 16\<rparr>"

definition sampleEnv :: "ChainElementExecution list \<Rightarrow> env" where
  "sampleEnv xs =
     \<lparr>envClientName = ''worker'',
      envNoShellTasks = False,
      envWaitTime = 1,
      envSelect = (\<lambda>h. Done),
      envTryLockClientName = (\<lambda>h. True),
      envIsAlive = (\<lambda>h. False),
      envSelectContext = (\<lambda>h q c. (None, [])),
      envCanProceedChainExecution = (\<lambda>h c m. True),
      envStartTransaction = (\<lambda>h. None),
      envGetChainElements = (\<lambda>h i. (True, xs)),
      envInsertChainRunStatus = (\<lambda>h c i. 1),
      envGetChainParamValues = (\<lambda>h el. (True, [])),
      envExecuteSQLTask = (\<lambda>h el ps. None),
      envExecuteShellCommand =
        (\<lambda>h s ps. if s = ''exit 1'' then (1, [], Some ''exit status 1'') else (0, [], None)),
      envExecuteTask = (\<lambda>h s ps. None),
      envNow = (\<lambda>h. int (length h)),
      envSinceMicroseconds = (\<lambda>h t. int (length h) - t),
      envTrimSpace = (\<lambda>s. s)\<rparr>"

text \<open>
  Collaborators whose answers change with the history. With \<open>lockedOutEnv\<close> the lock is
  never free and the context is cancelled once a timer has fired. With \<open>cancellingEnv\<close>
  and \<open>droppingEnv\<close> the lock is free at the second attempt; the first ends the second
  cycle with a cancelled context, the second with a failed liveness probe.
\<close>

definition lockedOutEnv :: env where
  "lockedOutEnv =
     (sampleEnv [])
       \<lparr>envSelect := (\<lambda>h. if TimeAfter (refetchTimeout * Second) \<in> set h then Done else Timer),
        envTryLockClientName := (\<lambda>h. False)\<rparr>"

definition cancellingEnv :: env where
  "cancellingEnv =
     (sampleEnv [])
       \<lparr>envSelect := (\<lambda>h. if IsAlive True \<in> set h then Done else Timer),
        envTryLockClientName := (\<lambda>h. TryLockClientName False \<in> set h),
        envIsAlive := (\<lambda>h. True)\<rparr>"

definition droppingEnv :: env where
  "droppingEnv =
     (sampleEnv [])
       \<lparr>envSelect := (\<lambda>h. Timer),
        envTryLockClientName := (\<lambda>h. TryLockClientName False \<in> set h),
        envIsAlive := (\<lambda>h. IsAlive True \<notin> set h)\<rparr>"

section \<open>Properties\<close>

subsection \<open>Readings of an appended history\<close>

lemma statuses_append: "statuses (a @ b) = statuses a @ statuses b"
  by (simp add: statuses_def)

lemma executed_append: "executed (a @ b) = executed a @ executed b"
  by (simp add: executed_def)

lemma backendCalls_append: "backendCalls (a @ b) = backendCalls a @ backendCalls b"
  by (simp add: backendCalls_def)

lemma pacing_append: "pacing (a @ b) = pacing a @ pacing b"
  by (simp add: pacing_def)

lemma deleted_append: "deleted (a @ b) = deleted a @ deleted b"
  by (simp add: deleted_def)

subsection \<open>What one element adds to the history\<close>

text \<open>
  Executing an element appends to the history, writes no status, asks once for the
  parameter values, and leaves the fields \<open>IgnoreError\<close>, \<open>ChainConfig\<close> and \<open>Kind\<close> of
  the element as they were.
\<close>

lemma switchKind_history:
  assumes "switchKind e h el ps = (c, out, err, h')"
  shows "\<exists>m. h' = h @ m \<and> statuses m = [] \<and> executed m = []"
  using assms
  by (auto simp: switchKind_def statuses_def executed_def split: if_splits prod.splits)

lemma executeChainElement_history:
  assumes "executeChainElement e h el = (rc, el', h')"
  shows "\<exists>m. h' = h @ m \<and> statuses m = [] \<and> executed m = [el]"
proof -
  obtain ok ps where p: "envGetChainParamValues e
      (h @ [LogToDB ''DEBUG'' [Sprintf ''Executing task: %s'' [VElem el]]]) el = (ok, ps)"
    by (cases "envGetChainParamValues e
      (h @ [LogToDB ''DEBUG'' [Sprintf ''Executing task: %s'' [VElem el]]]) el")
  show ?thesis
  proof (cases "ok \<and> \<not> (Kind el = ''SHELL'' \<and> envNoShellTasks e)")
    case False
    with assms p show ?thesis
      by (auto simp: executeChainElement_def Let_def statuses_def executed_def split: if_splits)
  next
    case True
    let ?h2 = "h @ [LogToDB ''DEBUG'' [Sprintf ''Executing task: %s'' [VElem el]],
                    GetChainParamValues el True]"
    let ?el1 = "el\<lparr>StartedAt := envNow e ?h2\<rparr>"
    obtain c out err h3 where s: "switchKind e ?h2 ?el1 ps = (c, out, err, h3)"
      by (cases "switchKind e ?h2 ?el1 ps")
    from switchKind_history [OF s] obtain m where m: "h3 = ?h2 @ m" "statuses m = []" "executed m = []"
      by blast
    from assms p True s m show ?thesis
      by (auto simp: executeChainElement_def Let_def statuses_def executed_def split: option.splits)
  qed
qed

lemma executeChainElement_IgnoreError:
  assumes "executeChainElement e h el = (rc, el', h')"
  shows "IgnoreError el' = IgnoreError el \<and> ChainConfig el' = ChainConfig el \<and> Kind el' = Kind el"
  using assms
  by (auto simp: executeChainElement_def Let_def split: if_splits prod.splits option.splits)

lemma executeChainElement_deleted:
  assumes "executeChainElement e h el = (rc, el', h')"
  shows "deleted h' = deleted h"
  using assms
  by (auto simp: executeChainElement_def switchKind_def Let_def deleted_def
           split: if_splits prod.splits option.splits)

subsection \<open>The loop over the elements\<close>

text \<open>
  A loop that ran to its end over a prefix of the elements goes on with the rest from
  the history it reached; it wrote \<open>STARTED\<close> and \<open>CHAIN_DONE\<close> for each element of the
  prefix and entered the execution of each of them, in order.
\<close>

lemma chainLoop_append:
  "chainLoop e c i r h pre = (True, h') \<Longrightarrow>
   chainLoop e c i r h (pre @ ys) = chainLoop e c i r h' ys"
proof (induction pre arbitrary: h)
  case Nil
  then show ?case by simp
next
  case (Cons x pre)
  then show ?case
    by (auto simp add: Let_def split: prod.splits if_splits)
qed

lemma chainLoop_complete:
  "chainLoop e c i r h xs = (True, h') \<Longrightarrow>
   \<exists>m. h' = h @ m
     \<and> statuses m = concat (replicate (length xs) [''STARTED'', ''CHAIN_DONE''])
     \<and> executed m = map (\<lambda>x. x\<lparr>ChainConfig := c\<rparr>) xs"
proof (induction xs arbitrary: h)
  case Nil
  then show ?case by (simp add: statuses_def executed_def)
next
  case (Cons x xs)
  let ?x = "x\<lparr>ChainConfig := c\<rparr>"
  let ?h1 = "h @ [UpdateChainRunStatus ?x r ''STARTED'']"
  obtain rc el' h2 where ex: "executeChainElement e ?h1 ?x = (rc, el', h2)"
    by (cases "executeChainElement e ?h1 ?x")
  from executeChainElement_history [OF ex] obtain m1
    where m1: "h2 = ?h1 @ m1" "statuses m1 = []" "executed m1 = [?x]" by blast
  from Cons.prems ex have
    rest: "chainLoop e c i r (h2 @ [UpdateChainRunStatus el' r ''CHAIN_DONE'']) xs = (True, h')"
    by (simp add: Let_def split: if_splits)
  from Cons.IH [OF rest] obtain m2 where
    m2: "h' = (h2 @ [UpdateChainRunStatus el' r ''CHAIN_DONE'']) @ m2"
        "statuses m2 = concat (replicate (length xs) [''STARTED'', ''CHAIN_DONE''])"
        "executed m2 = map (\<lambda>x. x\<lparr>ChainConfig := c\<rparr>) xs"
    by blast
  let ?m = "[UpdateChainRunStatus ?x r ''STARTED''] @ m1 @ [UpdateChainRunStatus el' r ''CHAIN_DONE''] @ m2"
  have "h' = h @ ?m" using m1 m2 by simp
  moreover have "statuses ?m = concat (replicate (length (x # xs)) [''STARTED'', ''CHAIN_DONE''])"
    using m1 m2 by (simp add: statuses_append) (simp add: statuses_def)
  moreover have "executed ?m = map (\<lambda>x. x\<lparr>ChainConfig := c\<rparr>) (x # xs)"
    using m1 m2 by (simp add: executed_append) (simp add: executed_def)
  ultimately show ?case by blast
qed


lemma chainLoop_deleted: "deleted (snd (chainLoop e c i r h xs)) = deleted h"
proof (induction xs arbitrary: h)
  case Nil
  then show ?case by simp
next
  case (Cons x xs)
  let ?x = "x\<lparr>ChainConfig := c\<rparr>"
  let ?h1 = "h @ [UpdateChainRunStatus ?x r ''STARTED'']"
  obtain rc el' h2 where ex: "executeChainElement e ?h1 ?x = (rc, el', h2)"
    by (cases "executeChainElement e ?h1 ?x")
  from executeChainElement_deleted [OF ex] have d: "deleted h2 = deleted h"
    by (simp add: deleted_append) (simp add: deleted_def)
  show ?case
  proof (cases "rc \<noteq> 0 \<and> \<not> IgnoreError el'")
    case True
    with ex d show ?thesis
      by (simp add: Let_def deleted_append) (simp add: deleted_def)
  next
    case False
    have "deleted (snd (chainLoop e c i r (h2 @ [UpdateChainRunStatus el' r ''CHAIN_DONE'']) xs))
            = deleted h"
      using d by (simp add: Cons.IH deleted_append) (simp add: deleted_def)
    with False ex show ?thesis by (auto simp add: Let_def)
  qed
qed

subsection \<open>The executor around the loop\<close>

lemma executeChain_loop:
  assumes "envStartTransaction e h = None"
    and "envGetChainElements e (fetchPoint h cfg cid) cid = (True, xs)"
    and "loopEntry e h cfg cid = (rid, h3)"
  shows "executeChain e h cfg cid =
           (case chainLoop e cfg cid rid h3 xs of
              (False, h4) \<Rightarrow> h4
            | (True, h4) \<Rightarrow> h4 @ chainDone cfg cid rid)"
  using assms
  by (auto simp: executeChain_def fetchPoint_def loopEntry_def chainDone_def Let_def
           split: prod.splits bool.splits)


lemma loopEntry_history:
  "loopEntry e h cfg cid = (rid, h3) \<Longrightarrow>
   \<exists>m. h3 = h @ m \<and> statuses m = [] \<and> executed m = []"
  by (auto simp: loopEntry_def fetchPoint_def Let_def statuses_def executed_def)

lemma executeChain_deleted: "deleted (executeChain e h cfg cid) = deleted h"
proof (cases "envStartTransaction e h")
  case (Some err)
  then show ?thesis by (simp add: executeChain_def deleted_def)
next
  case None
  obtain ok xs where f: "envGetChainElements e (fetchPoint h cfg cid) cid = (ok, xs)"
    by (cases "envGetChainElements e (fetchPoint h cfg cid) cid")
  show ?thesis
  proof (cases ok)
    case False
    with None f show ?thesis
      by (simp add: executeChain_def fetchPoint_def deleted_def)
  next
    case True
    obtain rid h3 where en: "loopEntry e h cfg cid = (rid, h3)"
      by (cases "loopEntry e h cfg cid")
    then have h3: "deleted h3 = deleted h"
      by (auto simp: loopEntry_def fetchPoint_def Let_def deleted_def)
    obtain b h4 where l: "chainLoop e cfg cid rid h3 xs = (b, h4)"
      by (cases "chainLoop e cfg cid rid h3 xs")
    from chainLoop_deleted [of e cfg cid rid h3 xs] l h3 have "deleted h4 = deleted h"
      by simp
    from f True have f': "envGetChainElements e (fetchPoint h cfg cid) cid = (True, xs)"
      by simp
    from \<open>deleted h4 = deleted h\<close> executeChain_loop [OF None f' en] l show ?thesis
      by (cases b) (simp_all add: deleted_append, simp add: deleted_def chainDone_def)
  qed
qed

subsection \<open>The poller and the loops of Run\<close>

text \<open>
  What the send loop sleeps and sends; how each loop of \<^verbatim>\<open>Run\<close> can end; and that a
  loop which has returned on some fuel returns the same on more.
\<close>

lemma sendLoop_pacing:
  "pacing (sendLoop n h cs) =
     pacing h @ concat (map (\<lambda>c. (if n > maxChainsThreshold
                                   then [Sleep ((refetchTimeout * 1000 div n) * Millisecond)]
                                   else []) @ [SendChains c]) cs)"
proof (induction cs arbitrary: h)
  case Nil
  then show ?case by simp
next
  case (Cons c cs)
  show ?case
    by (simp add: Cons.IH pacing_append) (simp add: pacing_def)
qed

lemma lockLoop_result:
  "lockLoop n e h = Some (b, h') \<Longrightarrow>
   (if b then \<exists>p. h' = p @ [TryLockClientName True]
    else \<exists>p. h' = p @ TryLockClientName False # requestCancelled)"
proof (induction n arbitrary: h)
  case 0
  then show ?case by simp
next
  case (Suc n)
  show ?case
  proof (cases "envTryLockClientName e h")
    case True
    with Suc.prems show ?thesis by (auto simp: Let_def)
  next
    case False
    show ?thesis
    proof (cases "envSelect e (h @ [TryLockClientName False])")
      case Timer
      with False Suc.prems have
        "lockLoop n e (h @ [TryLockClientName False, TimeAfter (refetchTimeout * Second)])
           = Some (b, h')"
        by (simp add: Let_def)
      from Suc.IH [OF this] show ?thesis .
    next
      case Done
      with False Suc.prems show ?thesis
        by (auto simp: Let_def requestCancelled_def)
    qed
  qed
qed

lemma foreverLoop_step:
  "foreverLoop (Suc n) e h =
     (case envSelect e (pollPoint e h) of
        Timer \<Rightarrow>
          if envIsAlive e (pollPoint e h @ [TimeAfter (refetchTimeout * Second)])
          then foreverLoop n e (pollPoint e h @ [TimeAfter (refetchTimeout * Second), IsAlive True])
          else Some (ConnectionDroppped,
                     pollPoint e h @ [TimeAfter (refetchTimeout * Second), IsAlive False])
      | Done \<Rightarrow> Some (ContextCancelled, pollPoint e h @ requestCancelled))"
  by (simp add: pollPoint_def requestCancelled_def Let_def split: wake.splits)

lemma foreverLoop_result:
  "foreverLoop n e h = Some (st, h') \<Longrightarrow>
   (st = ContextCancelled
      \<and> (\<exists>p. h' = p @ RetriveIntervalChainsAndRun sqlSelectIntervalChains # requestCancelled))
   \<or> (st = ConnectionDroppped
      \<and> (\<exists>p. h' = p @ [RetriveIntervalChainsAndRun sqlSelectIntervalChains,
                        TimeAfter (60 * Second), IsAlive False]))"
proof (induction n arbitrary: h)
  case 0
  then show ?case by simp
next
  case (Suc n)
  have pp: "\<exists>p. pollPoint e h = p @ [RetriveIntervalChainsAndRun sqlSelectIntervalChains]"
    by (simp add: pollPoint_def)
  then obtain p where p: "pollPoint e h = p @ [RetriveIntervalChainsAndRun sqlSelectIntervalChains]"
    by blast
  show ?case
  proof (cases "envSelect e (pollPoint e h)")
    case Done
    with Suc.prems have "st = ContextCancelled" "h' = pollPoint e h @ requestCancelled"
      by (simp_all only: foreverLoop_step wake.case option.inject prod.inject)
    with p show ?thesis by simp
  next
    case Timer
    show ?thesis
    proof (cases "envIsAlive e (pollPoint e h @ [TimeAfter (refetchTimeout * Second)])")
      case True
      with Timer Suc.prems have
        "foreverLoop n e (pollPoint e h @ [TimeAfter (refetchTimeout * Second), IsAlive True])
           = Some (st, h')"
        by (simp only: foreverLoop_step wake.case if_True)
      from Suc.IH [OF this] show ?thesis .
    next
      case False
      with Timer Suc.prems have "st = ConnectionDroppped"
        "h' = pollPoint e h @ [TimeAfter (refetchTimeout * Second), IsAlive False]"
        by (simp_all only: foreverLoop_step wake.case if_False option.inject prod.inject)
      with p show ?thesis by (simp add: refetchTimeout_def)
    qed
  qed
qed

lemma lockLoop_more: "lockLoop n e h = Some r \<Longrightarrow> lockLoop (n + k) e h = Some r"
proof (induction n arbitrary: h)
  case 0
  then show ?case by simp
next
  case (Suc n)
  then show ?case
    by (auto simp: Let_def split: if_splits wake.splits)
qed

lemma foreverLoop_more: "foreverLoop n e h = Some r \<Longrightarrow> foreverLoop (n + k) e h = Some r"
proof (induction n arbitrary: h)
  case 0
  then show ?case by simp
next
  case (Suc n)
  have "foreverLoop (Suc (n + k)) e h = Some r"
    using Suc.prems Suc.IH
    by (simp only: foreverLoop_step split: wake.splits if_splits) auto
  then show ?case by simp
qed

text \<open>
  \<^verbatim>\<open>Run\<close> iteration by iteration: failed attempts on the lock and live cycles are stepped
  over, and a loop that returns does so at some attempt or at some cycle.
\<close>

lemma lockDenied_Suc:
  "lockDenied e h (Suc i) \<longleftrightarrow>
     \<not> envTryLockClientName e h
   \<and> envSelect e (h @ [TryLockClientName False]) = Timer
   \<and> lockDenied e (h @ [TryLockClientName False, TimeAfter (refetchTimeout * Second)]) i"
  by (simp add: lockDenied_def lessThan_Suc_eq_insert_0)

lemma cyclesAlive_Suc:
  "cyclesAlive e h (Suc k) \<longleftrightarrow>
     envSelect e (pollPoint e h) = Timer
   \<and> envIsAlive e (pollPoint e h @ [TimeAfter (refetchTimeout * Second)])
   \<and> cyclesAlive e (pollPoint e h @ [TimeAfter (refetchTimeout * Second), IsAlive True]) k"
  by (simp add: cyclesAlive_def lessThan_Suc_eq_insert_0)

lemma lockLoop_skip:
  "lockDenied e h i \<Longrightarrow> lockLoop (i + n) e h = lockLoop n e (lockWait i h)"
proof (induction i arbitrary: h)
  case 0
  then show ?case by simp
next
  case (Suc i)
  from Suc.prems have now: "\<not> envTryLockClientName e h"
      "envSelect e (h @ [TryLockClientName False]) = Timer"
    and later: "lockDenied e (h @ [TryLockClientName False, TimeAfter (refetchTimeout * Second)]) i"
    by (simp_all add: lockDenied_Suc)
  from now have "lockLoop (Suc (i + n)) e h =
      lockLoop (i + n) e (h @ [TryLockClientName False, TimeAfter (refetchTimeout * Second)])"
    by (simp add: Let_def)
  with Suc.IH [OF later] show ?case by simp
qed

lemma foreverLoop_skip:
  "cyclesAlive e h k \<Longrightarrow> foreverLoop (k + n) e h = foreverLoop n e (cycleStart e k h)"
proof (induction k arbitrary: h)
  case 0
  then show ?case by simp
next
  case (Suc k)
  from Suc.prems have now: "envSelect e (pollPoint e h) = Timer"
      "envIsAlive e (pollPoint e h @ [TimeAfter (refetchTimeout * Second)])"
    and later: "cyclesAlive e (pollPoint e h @ [TimeAfter (refetchTimeout * Second), IsAlive True]) k"
    by (simp_all add: cyclesAlive_Suc)
  from now have "foreverLoop (Suc (k + n)) e h =
      foreverLoop (k + n) e (pollPoint e h @ [TimeAfter (refetchTimeout * Second), IsAlive True])"
    by (simp only: foreverLoop_step wake.case if_True)
  with Suc.IH [OF later] show ?case by simp
qed

lemma lockLoop_Some:
  "lockLoop n e h = Some (b, h') \<Longrightarrow>
   \<exists>i<n. lockDenied e h i
     \<and> (if b then envTryLockClientName e (lockWait i h)
                 \<and> h' = lockWait i h @ [TryLockClientName True]
         else \<not> envTryLockClientName e (lockWait i h)
              \<and> envSelect e (lockWait i h @ [TryLockClientName False]) = Done
              \<and> h' = lockWait i h @ TryLockClientName False # requestCancelled)"
proof (induction n arbitrary: h)
  case 0
  then show ?case by simp
next
  case (Suc n)
  have d0: "lockDenied e h 0" by (simp add: lockDenied_def)
  show ?case
  proof (cases "envTryLockClientName e h")
    case True
    with Suc.prems have "b" "h' = h @ [TryLockClientName True]"
      by (auto simp: Let_def)
    with True d0 show ?thesis by (intro exI [of _ 0]) simp
  next
    case False
    show ?thesis
    proof (cases "envSelect e (h @ [TryLockClientName False])")
      case Done
      with False Suc.prems have "\<not> b" "h' = h @ TryLockClientName False # requestCancelled"
        by (auto simp: Let_def requestCancelled_def)
      with False Done d0 show ?thesis by (intro exI [of _ 0]) simp
    next
      case Timer
      let ?h = "h @ [TryLockClientName False, TimeAfter (refetchTimeout * Second)]"
      from Timer False Suc.prems have "lockLoop n e ?h = Some (b, h')"
        by (simp add: Let_def)
      from Suc.IH [OF this] obtain i where i: "i < n" "lockDenied e ?h i"
        "if b then envTryLockClientName e (lockWait i ?h)
                 \<and> h' = lockWait i ?h @ [TryLockClientName True]
         else \<not> envTryLockClientName e (lockWait i ?h)
              \<and> envSelect e (lockWait i ?h @ [TryLockClientName False]) = Done
              \<and> h' = lockWait i ?h @ TryLockClientName False # requestCancelled"
        by blast
      from i(2) False Timer have "lockDenied e h (Suc i)"
        by (simp add: lockDenied_Suc)
      with i(1) i(3) show ?thesis by (intro exI [of _ "Suc i"]) simp
    qed
  qed
qed

lemma foreverLoop_Some:
  "foreverLoop n e h = Some (st, h') \<Longrightarrow>
   \<exists>k<n. cyclesAlive e h k
     \<and> ((st = ContextCancelled
          \<and> envSelect e (pollPoint e (cycleStart e k h)) = Done
          \<and> h' = pollPoint e (cycleStart e k h) @ requestCancelled)
        \<or> (st = ConnectionDroppped
          \<and> envSelect e (pollPoint e (cycleStart e k h)) = Timer
          \<and> \<not> envIsAlive e (pollPoint e (cycleStart e k h) @ [TimeAfter (60 * Second)])
          \<and> h' = pollPoint e (cycleStart e k h) @ [TimeAfter (60 * Second), IsAlive False]))"
proof (induction n arbitrary: h)
  case 0
  then show ?case by simp
next
  case (Suc n)
  have c0: "cyclesAlive e h 0" by (simp add: cyclesAlive_def)
  show ?case
  proof (cases "envSelect e (pollPoint e h)")
    case Done
    with Suc.prems have "st = ContextCancelled" "h' = pollPoint e h @ requestCancelled"
      by (simp_all only: foreverLoop_step wake.case option.inject prod.inject)
    with Done c0 show ?thesis by (intro exI [of _ 0]) simp
  next
    case Timer
    show ?thesis
    proof (cases "envIsAlive e (pollPoint e h @ [TimeAfter (refetchTimeout * Second)])")
      case False
      with Timer Suc.prems have "st = ConnectionDroppped"
        "h' = pollPoint e h @ [TimeAfter (refetchTimeout * Second), IsAlive False]"
        by (simp_all only: foreverLoop_step wake.case if_False option.inject prod.inject)
      with Timer False c0 show ?thesis
        by (intro exI [of _ 0]) (simp add: refetchTimeout_def)
    next
      case True
      let ?h = "pollPoint e h @ [TimeAfter (refetchTimeout * Second), IsAlive True]"
      from Timer True Suc.prems have "foreverLoop n e ?h = Some (st, h')"
        by (simp only: foreverLoop_step wake.case if_True)
      from Suc.IH [OF this] obtain k where k: "k < n" "cyclesAlive e ?h k"
        "(st = ContextCancelled
          \<and> envSelect e (pollPoint e (cycleStart e k ?h)) = Done
          \<and> h' = pollPoint e (cycleStart e k ?h) @ requestCancelled)
        \<or> (st = ConnectionDroppped
          \<and> envSelect e (pollPoint e (cycleStart e k ?h)) = Timer
          \<and> \<not> envIsAlive e (pollPoint e (cycleStart e k ?h) @ [TimeAfter (60 * Second)])
          \<and> h' = pollPoint e (cycleStart e k ?h) @ [TimeAfter (60 * Second), IsAlive False])"
        by blast
      from k(2) Timer True have "cyclesAlive e h (Suc k)"
        by (simp add: cyclesAlive_Suc)
      with k(1) k(3) show ?thesis by (intro exI [of _ "Suc k"]) simp
    qed
  qed
qed

lemma Run_locked:
  "lockLoop n e h = Some (True, h1) \<Longrightarrow> Run n e h = foreverLoop n e (mainEntry e h1)"
  by (simp add: Run_def mainEntry_def Let_def)

lemma Run_not_locked:
  "lockLoop n e h = Some (False, h1) \<Longrightarrow> Run n e h = Some (ContextCancelled, h1)"
  by (simp add: Run_def)

lemma Run_at_lock:
  assumes "i < n" and "cancelledAtLock e h i"
  shows "Run n e h =
           Some (ContextCancelled, lockWait i h @ TryLockClientName False # requestCancelled)"
proof -
  from assms(1) obtain m where n: "n = i + Suc m"
    by (metis less_iff_Suc_add add_Suc_right)
  from assms(2) have d: "lockDenied e h i" and f: "\<not> envTryLockClientName e (lockWait i h)"
    and s: "envSelect e (lockWait i h @ [TryLockClientName False]) = Done"
    by (simp_all add: cancelledAtLock_def)
  have "lockLoop n e h = lockLoop (Suc m) e (lockWait i h)"
    unfolding n by (rule lockLoop_skip [OF d])
  also have "\<dots> = Some (False, lockWait i h @ TryLockClientName False # requestCancelled)"
    using f s by (simp add: Let_def requestCancelled_def)
  finally show ?thesis by (rule Run_not_locked)
qed

lemma Run_at_cycle:
  assumes "i < n" and "k < n" and "reachesCycle e h i k"
  shows "\<exists>m. Run n e h =
           foreverLoop (Suc m) e
             (cycleStart e k (mainEntry e (lockWait i h @ [TryLockClientName True])))"
proof -
  from assms(1) obtain m where n: "n = i + Suc m"
    by (metis less_iff_Suc_add add_Suc_right)
  from assms(2) obtain m' where n': "n = k + Suc m'"
    by (metis less_iff_Suc_add add_Suc_right)
  let ?h1 = "lockWait i h @ [TryLockClientName True]"
  from assms(3) have d: "lockDenied e h i" and t: "envTryLockClientName e (lockWait i h)"
    and c: "cyclesAlive e (mainEntry e ?h1) k"
    by (simp_all add: reachesCycle_def)
  have "lockLoop n e h = lockLoop (Suc m) e (lockWait i h)"
    unfolding n by (rule lockLoop_skip [OF d])
  also have "\<dots> = Some (True, ?h1)"
    using t by (simp add: Let_def)
  finally have "Run n e h = foreverLoop n e (mainEntry e ?h1)"
    by (rule Run_locked)
  also have "\<dots> = foreverLoop (Suc m') e (cycleStart e k (mainEntry e ?h1))"
    unfolding n' by (rule foreverLoop_skip [OF c])
  finally show ?thesis by blast
qed

lemma Run_Some:
  assumes "Run n e h = Some (st, h')"
  shows "(\<exists>i<n. cancelledAtLock e h i
            \<and> st = ContextCancelled
            \<and> h' = lockWait i h @ TryLockClientName False # requestCancelled)
       \<or> (\<exists>i<n. \<exists>k<n. reachesCycle e h i k
            \<and> ((st = ContextCancelled
                 \<and> envSelect e (cyclePoll e h i k) = Done
                 \<and> h' = cyclePoll e h i k @ requestCancelled)
               \<or> (st = ConnectionDroppped
                 \<and> envSelect e (cyclePoll e h i k) = Timer
                 \<and> \<not> envIsAlive e (cyclePoll e h i k @ [TimeAfter (60 * Second)])
                 \<and> h' = cyclePoll e h i k @ [TimeAfter (60 * Second), IsAlive False])))"
proof (cases "lockLoop n e h")
  case None
  with assms show ?thesis by (simp add: Run_def)
next
  case (Some r)
  obtain b h1 where r: "r = (b, h1)" by (cases r)
  from lockLoop_Some [of n e h b h1] Some r obtain i where i: "i < n" "lockDenied e h i"
    "if b then envTryLockClientName e (lockWait i h)
               \<and> h1 = lockWait i h @ [TryLockClientName True]
     else \<not> envTryLockClientName e (lockWait i h)
          \<and> envSelect e (lockWait i h @ [TryLockClientName False]) = Done
          \<and> h1 = lockWait i h @ TryLockClientName False # requestCancelled"
    by auto
  show ?thesis
  proof (cases b)
    case False
    with assms Some r have "st = ContextCancelled" "h' = h1"
      using Run_not_locked [of n e h h1] by simp_all
    with False i have "i < n \<and> cancelledAtLock e h i \<and> st = ContextCancelled
        \<and> h' = lockWait i h @ TryLockClientName False # requestCancelled"
      by (simp add: cancelledAtLock_def)
    then show ?thesis by blast
  next
    case True
    with i have t: "envTryLockClientName e (lockWait i h)"
      and h1: "h1 = lockWait i h @ [TryLockClientName True]"
      by simp_all
    from assms Some r True have "foreverLoop n e (mainEntry e h1) = Some (st, h')"
      using Run_locked [of n e h h1] by simp
    from foreverLoop_Some [OF this] obtain k where k: "k < n" "cyclesAlive e (mainEntry e h1) k"
      "(st = ContextCancelled
          \<and> envSelect e (pollPoint e (cycleStart e k (mainEntry e h1))) = Done
          \<and> h' = pollPoint e (cycleStart e k (mainEntry e h1)) @ requestCancelled)
        \<or> (st = ConnectionDroppped
          \<and> envSelect e (pollPoint e (cycleStart e k (mainEntry e h1))) = Timer
          \<and> \<not> envIsAlive e (pollPoint e (cycleStart e k (mainEntry e h1)) @ [TimeAfter (60 * Second)])
          \<and> h' = pollPoint e (cycleStart e k (mainEntry e h1)) @ [TimeAfter (60 * Second), IsAlive False])"
      by blast
    from i(2) t k(2) h1 have "reachesCycle e h i k"
      by (simp add: reachesCycle_def)
    with i(1) k(1) k(3) h1 have "i < n \<and> k < n \<and> reachesCycle e h i k
            \<and> ((st = ContextCancelled
                 \<and> envSelect e (cyclePoll e h i k) = Done
                 \<and> h' = cyclePoll e h i k @ requestCancelled)
               \<or> (st = ConnectionDroppped
                 \<and> envSelect e (cyclePoll e h i k) = Timer
                 \<and> \<not> envIsAlive e (cyclePoll e h i k @ [TimeAfter (60 * Second)])
                 \<and> h' = cyclePoll e h i k @ [TimeAfter (60 * Second), IsAlive False]))"
      by (simp add: cyclePoll_def)
    then show ?thesis by blast
  qed
qed

lemma Run_endings:
  assumes "Run n e h = Some (st, h')"
  shows "(st = ContextCancelled
         \<and> (\<exists>p. h' = p @ TryLockClientName False # requestCancelled
                \<or> h' = p @ RetriveIntervalChainsAndRun sqlSelectIntervalChains # requestCancelled))
      \<or> (st = ConnectionDroppped
         \<and> (\<exists>p. h' = p @ [RetriveIntervalChainsAndRun sqlSelectIntervalChains,
                           TimeAfter (60 * Second), IsAlive False]))"
proof (cases "lockLoop n e h")
  case None
  with assms show ?thesis by (simp add: Run_def)
next
  case (Some r)
  obtain b h1 where r: "r = (b, h1)" by (cases r)
  show ?thesis
  proof (cases b)
    case False
    with assms Some r have "st = ContextCancelled" "h' = h1"
      by (simp_all add: Run_def)
    moreover from lockLoop_result [of n e h b h1] Some r False
    have "\<exists>p. h1 = p @ TryLockClientName False # requestCancelled"
      by simp
    ultimately show ?thesis by blast
  next
    case True
    with assms Some r obtain h3 where "foreverLoop n e h3 = Some (st, h')"
      by (auto simp: Run_def Let_def)
    from foreverLoop_result [OF this] show ?thesis by blast
  qed
qed

lemma Run_more:
  assumes "Run n e h = Some r"
  shows "Run (n + k) e h = Some r"
proof (cases "lockLoop n e h")
  case None
  with assms show ?thesis by (simp add: Run_def)
next
  case (Some l)
  obtain c h1 where l: "l = (c, h1)" by (cases l)
  from lockLoop_more [of n e h l k] Some have more: "lockLoop (n + k) e h = Some (c, h1)"
    by (simp add: l)
  show ?thesis
  proof (cases c)
    case False
    with assms Some l more show ?thesis by (simp add: Run_def)
  next
    case True
    with assms Some l more show ?thesis
      by (simp add: Run_def Let_def foreverLoop_more)
  qed
qed

subsection \<open>Unfolding the sample inputs\<close>

lemmas sample_defs = sampleEnv_def sqlElement_def shellElement_def builtinElement_def
  executeChainElement_def switchKind_def loopEntry_def fetchPoint_def Let_def

lemmas run_defs = sampleEnv_def cancelledAtLock_def reachesCycle_def lockDenied_def
  cyclesAlive_def cyclePoll_def pollPoint_def mainEntry_def retriveChainsAndRun_def
  workersNumber_def refetchTimeout_def Second_def Millisecond_def Let_def

subsection \<open>C1: an unignored failure fails the chain and stops it\<close>

text \<open>
  C1. Let the transaction start and the elements be fetched, let the loop reach the
  element \<open>x\<close> at position \<open>k = length pre\<close> (it ran to its end over the \<open>k\<close> elements
  before), and let the execution of \<open>x\<close> return a non-zero code while \<open>x\<close> does not
  ignore errors. Then the executor logs the failure, records \<open>CHAIN_FAILED\<close> for the run,
  rolls the transaction back and returns: these are the last three calls it makes. The
  statuses it has written are \<open>STARTED\<close>, \<open>CHAIN_DONE\<close> for each of the \<open>k\<close> elements
  before, then \<open>STARTED\<close>, \<open>CHAIN_FAILED\<close>; the elements whose execution it entered
  are those at positions \<open>0\<close> to \<open>k\<close>, so none after \<open>k\<close>.
\<close>

theorem chain_failed_stops:
  assumes start: "envStartTransaction e h = None"
    and fetch: "envGetChainElements e (fetchPoint h cfg cid) cid = (True, pre @ x # post)"
    and entry: "loopEntry e h cfg cid = (rid, h3)"
    and reach: "chainLoop e cfg cid rid h3 pre = (True, h4)"
    and code: "executeChainElement e
                 (h4 @ [UpdateChainRunStatus (x\<lparr>ChainConfig := cfg\<rparr>) rid ''STARTED''])
                 (x\<lparr>ChainConfig := cfg\<rparr>) = (retCode, el', h5)"
    and nonzero: "retCode \<noteq> 0"
    and noignore: "\<not> IgnoreError x"
  shows "executeChain e h cfg cid =
           h5 @ [LogToDB ''ERROR'' [Sprintf ''Chain ID: %d failed'' [VInt cid]],
                 UpdateChainRunStatus el' rid ''CHAIN_FAILED'',
                 MustRollbackTransaction]
         \<and> statuses (executeChain e h cfg cid) =
             statuses h @ concat (replicate (length pre) [''STARTED'', ''CHAIN_DONE''])
               @ [''STARTED'', ''CHAIN_FAILED'']
         \<and> executed (executeChain e h cfg cid) =
             executed h @ map (\<lambda>y. y\<lparr>ChainConfig := cfg\<rparr>) (pre @ [x])"
proof -
  let ?x = "x\<lparr>ChainConfig := cfg\<rparr>"
  let ?tail = "[LogToDB ''ERROR'' [Sprintf ''Chain ID: %d failed'' [VInt cid]],
                UpdateChainRunStatus el' rid ''CHAIN_FAILED'',
                MustRollbackTransaction]"
  from executeChainElement_IgnoreError [OF code] noignore have ign: "\<not> IgnoreError el'"
    by simp
  have step: "chainLoop e cfg cid rid h4 (x # post) = (False, h5 @ ?tail)"
    using code nonzero ign by (simp add: Let_def)
  have loop: "chainLoop e cfg cid rid h3 (pre @ x # post) = (False, h5 @ ?tail)"
    using chainLoop_append [OF reach, of "x # post"] step by simp
  have run: "executeChain e h cfg cid = h5 @ ?tail"
    using executeChain_loop [OF start fetch entry] loop by simp
  from loopEntry_history [OF entry] obtain m0
    where m0: "h3 = h @ m0" "statuses m0 = []" "executed m0 = []" by blast
  from chainLoop_complete [OF reach] obtain m1
    where m1: "h4 = h3 @ m1"
      "statuses m1 = concat (replicate (length pre) [''STARTED'', ''CHAIN_DONE''])"
      "executed m1 = map (\<lambda>y. y\<lparr>ChainConfig := cfg\<rparr>) pre" by blast
  from executeChainElement_history [OF code] obtain m2
    where m2: "h5 = (h4 @ [UpdateChainRunStatus ?x rid ''STARTED'']) @ m2"
      "statuses m2 = []" "executed m2 = [?x]" by blast
  have st: "statuses (h5 @ ?tail) =
      statuses h @ concat (replicate (length pre) [''STARTED'', ''CHAIN_DONE''])
        @ [''STARTED'', ''CHAIN_FAILED'']"
    using m0 m1 m2 by (simp add: statuses_append) (simp add: statuses_def)
  have ex: "executed (h5 @ ?tail) = executed h @ map (\<lambda>y. y\<lparr>ChainConfig := cfg\<rparr>) (pre @ [x])"
    using m0 m1 m2 by (simp add: executed_append) (simp add: executed_def)
  from run st ex show ?thesis by simp
qed

text \<open>
  The chain of an SQL statement, the failing shell command and a built-in task: the
  shell command at position 1 fails the chain, the built-in task is not executed.
\<close>

theorem chain_failed_stops_witness:
  "statuses (executeChain (sampleEnv [sqlElement, shellElement False, builtinElement]) [] 7 3)
     = [''STARTED'', ''CHAIN_DONE'', ''STARTED'', ''CHAIN_FAILED'']
   \<and> executed (executeChain (sampleEnv [sqlElement, shellElement False, builtinElement]) [] 7 3)
     = [sqlElement\<lparr>ChainConfig := 7\<rparr>, shellElement False\<lparr>ChainConfig := 7\<rparr>]"
proof -
  let ?e = "sampleEnv [sqlElement, shellElement False, builtinElement]"
  let ?h3 = "snd (loopEntry ?e [] 7 3)"
  let ?h4 = "snd (chainLoop ?e 7 3 1 ?h3 [sqlElement])"
  let ?r = "executeChainElement ?e
              (?h4 @ [UpdateChainRunStatus (shellElement False\<lparr>ChainConfig := 7\<rparr>) 1 ''STARTED''])
              (shellElement False\<lparr>ChainConfig := 7\<rparr>)"
  have start: "envStartTransaction ?e [] = None"
    by (simp add: sampleEnv_def)
  have fetch: "envGetChainElements ?e (fetchPoint [] 7 3) 3
                 = (True, [sqlElement] @ shellElement False # [builtinElement])"
    by (simp add: sampleEnv_def)
  have entry: "loopEntry ?e [] 7 3 = (1, ?h3)"
    by (simp add: loopEntry_def sampleEnv_def Let_def)
  have reach: "chainLoop ?e 7 3 1 ?h3 [sqlElement] = (True, ?h4)"
    by (simp add: sample_defs)
  have code: "?r = (1, fst (snd ?r), snd (snd ?r))"
    by (simp add: sample_defs)
  have noignore: "\<not> IgnoreError (shellElement False)"
    by (simp add: shellElement_def)
  have nonzero: "(1::int) \<noteq> 0"
    by simp
  from chain_failed_stops [OF start fetch entry reach code nonzero noignore, THEN conjunct2]
  show ?thesis
    by (simp add: statuses_def executed_def)
qed

subsection \<open>C2: the statuses recorded around an element\<close>




subsection \<open>C3: a failed fetch of the elements\<close>

text \<open>
  C3. When the transaction starts and fetching the elements fails, the executor rolls
  the transaction back and returns: after the start of the transaction and its log
  line, the failed fetch and the rollback are all it calls. No run header is inserted
  and no status is written.
\<close>

theorem fetch_failure_no_header:
  assumes start: "envStartTransaction e h = None"
    and fetch: "\<not> fst (envGetChainElements e (fetchPoint h cfg cid) cid)"
  shows "executeChain e h cfg cid =
           fetchPoint h cfg cid @ [GetChainElements cid False, MustRollbackTransaction]
         \<and> headers (executeChain e h cfg cid) = headers h
         \<and> statuses (executeChain e h cfg cid) = statuses h"
  using assms
  by (auto simp: executeChain_def fetchPoint_def Let_def headers_def statuses_def
           split: prod.splits)

theorem fetch_failure_no_header_witness:
  "executeChain ((sampleEnv [])\<lparr>envGetChainElements := (\<lambda>h i. (False, []))\<rparr>) [] 7 3 =
     [StartTransaction True,
      LogToDB ''LOG'' [Sprintf ''Starting chain ID: %d; configuration ID: %d'' [VInt 3, VInt 7]],
      GetChainElements 3 False,
      MustRollbackTransaction]
   \<and> headers (executeChain ((sampleEnv [])\<lparr>envGetChainElements := (\<lambda>h i. (False, []))\<rparr>) [] 7 3)
       = []"
proof -
  let ?e = "(sampleEnv [])\<lparr>envGetChainElements := (\<lambda>h i. (False, []))\<rparr>"
  have start: "envStartTransaction ?e [] = None"
    by (simp add: sampleEnv_def)
  have fetch: "\<not> fst (envGetChainElements ?e (fetchPoint [] 7 3) 3)"
    by (simp add: sampleEnv_def)
  from fetch_failure_no_header [OF start fetch]
  show ?thesis
    by (simp add: fetchPoint_def headers_def)
qed

subsection \<open>C4: the empty chain\<close>

text \<open>
  C4. When the transaction starts and the fetch yields no element, the executor inserts
  the run header, records \<open>CHAIN_DONE\<close> for the run and commits; it enters the execution
  of no element and calls no task backend.
\<close>

theorem empty_chain_commits:
  assumes start: "envStartTransaction e h = None"
    and fetch: "envGetChainElements e (fetchPoint h cfg cid) cid = (True, [])"
    and entry: "loopEntry e h cfg cid = (rid, h3)"
  shows "executeChain e h cfg cid =
           h3 @ [LogToDB ''LOG''
                   [Sprintf ''Executed successfully chain ID: %d; configuration ID: %d''
                      [VInt cid, VInt cfg]],
                 UpdateChainRunStatus (zeroElement\<lparr>ElemChainID := cid, ChainConfig := cfg\<rparr>)
                   rid ''CHAIN_DONE'',
                 MustCommitTransaction]
         \<and> statuses (executeChain e h cfg cid) = statuses h @ [''CHAIN_DONE'']
         \<and> executed (executeChain e h cfg cid) = executed h
         \<and> backendCalls (executeChain e h cfg cid) = backendCalls h"
proof -
  have run: "executeChain e h cfg cid = h3 @ chainDone cfg cid rid"
    using executeChain_loop [OF start fetch entry] by simp
  from entry have h3: "h3 = fetchPoint h cfg cid
      @ [GetChainElements cid True, InsertChainRunStatus cfg cid rid]"
    by (auto simp: loopEntry_def Let_def)
  show ?thesis
    unfolding run h3
    by (simp add: chainDone_def fetchPoint_def statuses_def executed_def backendCalls_def)
qed

theorem empty_chain_commits_witness:
  "executeChain (sampleEnv []) [] 7 3 =
     [StartTransaction True,
      LogToDB ''LOG'' [Sprintf ''Starting chain ID: %d; configuration ID: %d'' [VInt 3, VInt 7]],
      GetChainElements 3 True,
      InsertChainRunStatus 7 3 1,
      LogToDB ''LOG''
        [Sprintf ''Executed successfully chain ID: %d; configuration ID: %d'' [VInt 3, VInt 7]],
      UpdateChainRunStatus (zeroElement\<lparr>ElemChainID := 3, ChainConfig := 7\<rparr>) 1 ''CHAIN_DONE'',
      MustCommitTransaction]
   \<and> executed (executeChain (sampleEnv []) [] 7 3) = []"
proof -
  have start: "envStartTransaction (sampleEnv []) [] = None"
    by (simp add: sampleEnv_def)
  have fetch: "envGetChainElements (sampleEnv []) (fetchPoint [] 7 3) 3 = (True, [])"
    by (simp add: sampleEnv_def)
  have entry: "loopEntry (sampleEnv []) [] 7 3 =
      (1, fetchPoint [] 7 3 @ [GetChainElements 3 True, InsertChainRunStatus 7 3 1])"
    by (simp add: loopEntry_def sampleEnv_def Let_def)
  from empty_chain_commits [OF start fetch entry]
  show ?thesis
    by (simp add: fetchPoint_def executed_def)
qed

subsection \<open>C5: the result code of a dispatched element\<close>

text \<open>
  C5. Let the parameter values of the element be resolved and the element not be a
  shell task while shell tasks are off, so that the \<^verbatim>\<open>switch\<close> is entered, and let
  \<open>code\<close> and \<open>err\<close> be what the \<^verbatim>\<open>switch\<close> leaves in \<^verbatim>\<open>retCode\<close> and \<^verbatim>\<open>err\<close>. Then the
  result code is 0 without an error, \<open>code\<close> with an error and a non-zero \<open>code\<close>, and
  \<open>-1\<close> with an error and \<open>code = 0\<close>; so it is non-zero exactly when there is an error.
  For a shell task \<open>code\<close> and \<open>err\<close> are the answer of the shell command; for an SQL and
  for a built-in task \<open>code\<close> is 0 and \<open>err\<close> is the answer of the backend.
\<close>

theorem result_code_normalized:
  assumes params: "envGetChainParamValues e (paramPoint h el) el = (True, ps)"
    and allowed: "\<not> (Kind el = ''SHELL'' \<and> envNoShellTasks e)"
    and backend: "switchKind e (dispatchPoint h el)
                    (el\<lparr>StartedAt := envNow e (dispatchPoint h el)\<rparr>) ps = (code, out, err, h3)"
  shows "fst (executeChainElement e h el) =
           (case err of None \<Rightarrow> 0 | Some er \<Rightarrow> if code \<noteq> 0 then code else - 1)
         \<and> (err \<noteq> None \<longleftrightarrow> fst (executeChainElement e h el) \<noteq> 0)
         \<and> (Kind el = ''SQL'' \<longrightarrow>
              code = 0 \<and> err = envExecuteSQLTask e (dispatchPoint h el)
                                 (el\<lparr>StartedAt := envNow e (dispatchPoint h el)\<rparr>) ps)
         \<and> (Kind el = ''SHELL'' \<longrightarrow>
              (code, out, err) = envExecuteShellCommand e (dispatchPoint h el) (Script el) ps)
         \<and> (Kind el = ''BUILTIN'' \<longrightarrow>
              code = 0 \<and> err = envExecuteTask e (dispatchPoint h el) (TaskName el) ps)"
proof -
  have rc: "fst (executeChainElement e h el) =
      (case err of None \<Rightarrow> 0 | Some er \<Rightarrow> if code \<noteq> 0 then code else - 1)"
    using params allowed backend
    by (auto simp add: executeChainElement_def paramPoint_def dispatchPoint_def Let_def
             split: option.splits)
  have nz: "err \<noteq> None \<longleftrightarrow> fst (executeChainElement e h el) \<noteq> 0"
    unfolding rc by (simp split: option.splits)
  have kinds: "(Kind el = ''SQL'' \<longrightarrow>
              code = 0 \<and> err = envExecuteSQLTask e (dispatchPoint h el)
                                 (el\<lparr>StartedAt := envNow e (dispatchPoint h el)\<rparr>) ps)
         \<and> (Kind el = ''SHELL'' \<longrightarrow>
              (code, out, err) = envExecuteShellCommand e (dispatchPoint h el) (Script el) ps)
         \<and> (Kind el = ''BUILTIN'' \<longrightarrow>
              code = 0 \<and> err = envExecuteTask e (dispatchPoint h el) (TaskName el) ps)"
    using backend by (auto simp: switchKind_def split: prod.splits)
  from rc nz kinds show ?thesis by blast
qed

theorem result_code_normalized_witness:
  "fst (executeChainElement (sampleEnv []) [] (shellElement False)) = 1
   \<and> envExecuteShellCommand (sampleEnv []) (dispatchPoint [] (shellElement False))
        (Script (shellElement False)) [] = (1, [], Some ''exit status 1'')"
proof -
  let ?e = "sampleEnv []"
  let ?el = "shellElement False"
  have params: "envGetChainParamValues ?e (paramPoint [] ?el) ?el = (True, [])"
    by (simp add: sampleEnv_def)
  have allowed: "\<not> (Kind ?el = ''SHELL'' \<and> envNoShellTasks ?e)"
    by (simp add: sampleEnv_def)
  have backend: "switchKind ?e (dispatchPoint [] ?el)
                   (?el\<lparr>StartedAt := envNow ?e (dispatchPoint [] ?el)\<rparr>) []
                 = (1, [], Some ''exit status 1'',
                    dispatchPoint [] ?el @ [ExecuteShellCommand ''exit 1'' []])"
    by (simp add: switchKind_def sampleEnv_def shellElement_def)
  have kind: "Kind ?el = ''SHELL''"
    by (simp add: shellElement_def)
  from result_code_normalized [OF params allowed backend] kind
  show ?thesis
    by simp
qed

subsection \<open>C6: self-destructing configurations\<close>

text \<open>
  C6, as the code has it. When a chain is admitted, the worker runs the executor and
  then, if the chain is \<open>SelfDestruct\<close>, deletes its configuration, whatever the run did:
  the executor returns nothing the worker could test. The executor itself deletes
  nothing, so the configurations deleted after the run are those deleted before it and,
  for a \<open>SelfDestruct\<close> chain, this one, which is then absent from the eligible
  configurations; the configuration of a chain that is not \<open>SelfDestruct\<close> is not deleted.
\<close>

theorem self_destruct_after_run:
  assumes admitted: "proceedLoop n e chain (admissionPoint h chain) = Some (True, h1)"
  shows "chainWorker n e h (chain # rest) =
           chainWorker n e
             (executeChain e h1 (ChainExecutionConfigID chain) (ChainID chain)
              @ (if SelfDestruct chain then [DeleteChainConfig (ChainExecutionConfigID chain)] else []))
             rest
         \<and> deleted (executeChain e h1 (ChainExecutionConfigID chain) (ChainID chain)
                     @ (if SelfDestruct chain then [DeleteChainConfig (ChainExecutionConfigID chain)]
                        else []))
             = deleted h1 @ (if SelfDestruct chain then [ChainExecutionConfigID chain] else [])
         \<and> (SelfDestruct chain \<longrightarrow>
              ChainExecutionConfigID chain \<notin> set (eligibleAfter
                (executeChain e h1 (ChainExecutionConfigID chain) (ChainID chain)
                 @ [DeleteChainConfig (ChainExecutionConfigID chain)]) configs))"
proof -
  have w: "chainWorker n e h (chain # rest) =
           chainWorker n e
             (executeChain e h1 (ChainExecutionConfigID chain) (ChainID chain)
              @ (if SelfDestruct chain then [DeleteChainConfig (ChainExecutionConfigID chain)] else []))
             rest"
    using admitted by (simp add: admissionPoint_def Let_def)
  have d: "deleted (executeChain e h1 (ChainExecutionConfigID chain) (ChainID chain)
                     @ (if SelfDestruct chain then [DeleteChainConfig (ChainExecutionConfigID chain)]
                        else []))
             = deleted h1 @ (if SelfDestruct chain then [ChainExecutionConfigID chain] else [])"
    by (simp add: deleted_append executeChain_deleted) (simp add: deleted_def)
  have g: "ChainExecutionConfigID chain \<notin> set (eligibleAfter
                (executeChain e h1 (ChainExecutionConfigID chain) (ChainID chain)
                 @ [DeleteChainConfig (ChainExecutionConfigID chain)]) configs)"
    by (simp add: eligibleAfter_def deleted_append) (simp add: deleted_def)
  from w d g show ?thesis by blast
qed

theorem self_destruct_after_run_witness:
  "chainWorker 1 (sampleEnv [sqlElement]) [] [sampleChain True] =
     Some (executeChain (sampleEnv [sqlElement])
             (admissionPoint [] (sampleChain True) @ [CanProceedChainExecution 7 16 True]) 7 3
           @ [DeleteChainConfig 7])
   \<and> 7 \<notin> set (eligibleAfter
                (executeChain (sampleEnv [sqlElement])
                   (admissionPoint [] (sampleChain True) @ [CanProceedChainExecution 7 16 True]) 7 3
                 @ [DeleteChainConfig 7]) [5, 7, 9])"
proof -
  let ?e = "sampleEnv [sqlElement]"
  let ?h1 = "admissionPoint [] (sampleChain True) @ [CanProceedChainExecution 7 16 True]"
  have admitted: "proceedLoop 1 ?e (sampleChain True) (admissionPoint [] (sampleChain True))
                    = Some (True, ?h1)"
    by (simp add: sampleEnv_def sampleChain_def)
  have sd: "SelfDestruct (sampleChain True)" "ChainExecutionConfigID (sampleChain True) = 7"
    "ChainID (sampleChain True) = 3"
    by (simp_all add: sampleChain_def)
  from self_destruct_after_run [OF admitted, of "[]" "[5, 7, 9]"]
  show ?thesis
    by (simp only: sd if_True chainWorker.simps simp_thms)
qed

text \<open>
  The claim as it is written fails on a \<open>SelfDestruct\<close> chain whose only element is the
  failing shell command: the run records \<open>CHAIN_FAILED\<close> and is rolled back, not
  committed, and the worker deletes configuration 7 all the same.
\<close>

theorem self_destruct_counterexample:
  "chainWorker 1 (sampleEnv [shellElement False]) [] [sampleChain True] \<noteq> None
   \<and> statuses (the (chainWorker 1 (sampleEnv [shellElement False]) [] [sampleChain True]))
       = [''STARTED'', ''CHAIN_FAILED'']
   \<and> MustCommitTransaction \<notin> set (the (chainWorker 1 (sampleEnv [shellElement False]) []
                                          [sampleChain True]))
   \<and> MustRollbackTransaction \<in> set (the (chainWorker 1 (sampleEnv [shellElement False]) []
                                            [sampleChain True]))
   \<and> deleted (the (chainWorker 1 (sampleEnv [shellElement False]) [] [sampleChain True])) = [7]"
  by (simp add: sample_defs sampleChain_def executeChain_def statuses_def deleted_def)

subsection \<open>C7: spreading the sends of a large fetch\<close>

text \<open>
  C7. The threshold is \<open>16 * 60 = 960\<close>. When the query yields more than 960 chains, the
  poller sleeps \<open>60 * 1000 div count\<close> milliseconds before each send, so between any two
  consecutive sends; when it yields 960 chains or fewer, it sends them without sleeping.
\<close>

theorem burst_smoothing:
  assumes query: "envSelectContext e h q (envClientName e) = (None, headChains)"
  shows "maxChainsThreshold = 960
         \<and> (960 < int (length headChains) \<longrightarrow>
              pacing (retriveChainsAndRun e h q) =
                pacing h @ concat (map (\<lambda>c. [Sleep ((60 * 1000 div int (length headChains)) * Millisecond),
                                              SendChains c]) headChains))
         \<and> (int (length headChains) \<le> 960 \<longrightarrow>
              pacing (retriveChainsAndRun e h q) = pacing h @ map SendChains headChains)"
proof -
  have thr: "maxChainsThreshold = 960"
    by (simp add: maxChainsThreshold_def workersNumber_def refetchTimeout_def)
  have run: "pacing (retriveChainsAndRun e h q) =
      pacing h @ concat (map (\<lambda>c. (if int (length headChains) > maxChainsThreshold
                     then [Sleep ((refetchTimeout * 1000 div int (length headChains)) * Millisecond)]
                     else []) @ [SendChains c]) headChains)"
    using query
    by (simp add: retriveChainsAndRun_def Let_def sendLoop_pacing pacing_append)
       (simp add: pacing_def)
  have many: "960 < int (length headChains) \<longrightarrow>
      pacing (retriveChainsAndRun e h q) =
        pacing h @ concat (map (\<lambda>c. [Sleep ((60 * 1000 div int (length headChains)) * Millisecond),
                                      SendChains c]) headChains)"
    unfolding run thr by (simp add: refetchTimeout_def)
  have few: "int (length headChains) \<le> 960 \<longrightarrow>
      pacing (retriveChainsAndRun e h q) = pacing h @ map SendChains headChains"
    unfolding run thr by (simp add: concat_map_singleton)
  from thr many few show ?thesis by blast
qed

theorem burst_smoothing_witness:
  "pacing (retriveChainsAndRun
             ((sampleEnv [])\<lparr>envSelectContext := (\<lambda>h q c. (None, replicate 961 (sampleChain False)))\<rparr>)
             [] sqlSelectChains)
     = concat (replicate 961 [Sleep 62000000, SendChains (sampleChain False)])
   \<and> pacing (retriveChainsAndRun
             ((sampleEnv [])\<lparr>envSelectContext := (\<lambda>h q c. (None, replicate 960 (sampleChain False)))\<rparr>)
             [] sqlSelectChains)
     = replicate 960 (SendChains (sampleChain False))"
proof -
  let ?many = "(sampleEnv [])\<lparr>envSelectContext := (\<lambda>h q c. (None, replicate 961 (sampleChain False)))\<rparr>"
  let ?few = "(sampleEnv [])\<lparr>envSelectContext := (\<lambda>h q c. (None, replicate 960 (sampleChain False)))\<rparr>"
  have qm: "envSelectContext ?many [] sqlSelectChains (envClientName ?many)
              = (None, replicate 961 (sampleChain False))"
    by simp
  have qf: "envSelectContext ?few [] sqlSelectChains (envClientName ?few)
              = (None, replicate 960 (sampleChain False))"
    by simp
  have a: "pacing (retriveChainsAndRun ?many [] sqlSelectChains)
             = concat (replicate 961 [Sleep 62000000, SendChains (sampleChain False)])"
    using burst_smoothing [OF qm]
    by (simp add: pacing_def Millisecond_def map_replicate_const)
  have b: "pacing (retriveChainsAndRun ?few [] sqlSelectChains)
             = replicate 960 (SendChains (sampleChain False))"
    using burst_smoothing [OF qf]
    by (simp add: pacing_def map_replicate_const)
  from a b show ?thesis by (rule conjI)
qed

subsection \<open>C8: shell tasks switched off\<close>

text \<open>
  C8. For an element of kind \<open>SHELL\<close>, when shell tasks are off, the execution returns
  \<open>-1\<close> and calls no task backend, the shell command in particular.
\<close>

theorem shell_disabled_short_circuit:
  assumes "Kind el = ''SHELL''" and "envNoShellTasks e"
  shows "fst (executeChainElement e h el) = - 1
         \<and> backendCalls (snd (snd (executeChainElement e h el))) = backendCalls h"
  using assms
  by (simp add: executeChainElement_def Let_def backendCalls_def split: prod.splits)

theorem shell_disabled_short_circuit_witness:
  "fst (executeChainElement ((sampleEnv [])\<lparr>envNoShellTasks := True\<rparr>) [] (shellElement False)) = - 1
   \<and> backendCalls (snd (snd (executeChainElement ((sampleEnv [])\<lparr>envNoShellTasks := True\<rparr>) []
                               (shellElement False)))) = []"
proof -
  have kind: "Kind (shellElement False) = ''SHELL''"
    by (simp add: shellElement_def)
  have off: "envNoShellTasks ((sampleEnv [])\<lparr>envNoShellTasks := True\<rparr>)"
    by simp
  from shell_disabled_short_circuit [OF kind off, of "[]"]
  show ?thesis
    by (simp add: backendCalls_def)
qed

subsection \<open>C9: how Run returns\<close>

text \<open>
  C9. \<^verbatim>\<open>Run\<close> returns in exactly three ways, and the fuel \<open>n\<close> only has to exceed the
  number of iterations made. If the first \<open>i\<close> attempts on the lock fail and the timer
  fires after each, and attempt \<open>i\<close> fails and the cancelled context is seen, \<open>Run\<close>
  returns \<open>ContextCancelled\<close>. If the lock is taken at attempt \<open>i\<close> and the first \<open>k\<close> poll
  cycles each end with the timer and a live connection, then \<open>Run\<close> returns
  \<open>ContextCancelled\<close> when the cancelled context is seen at the end of cycle \<open>k\<close>, and
  \<open>ConnectionDroppped\<close> when the timer fires at the end of cycle \<open>k\<close> and the liveness probe
  fails. Conversely, whenever \<open>Run\<close> returns, it is in one of these three ways, at some
  attempt and some cycle, with the history given there: there is no other return. In
  particular the history of a return ends with the cancelled context after a failed
  attempt or after the interval chains of a cycle, or with the failed probe after the
  timer of a cycle. A return does not depend on the fuel left.
\<close>

theorem Run_outcomes:
  "(i < n \<and> cancelledAtLock e h i \<longrightarrow>
      Run n e h =
        Some (ContextCancelled, lockWait i h @ TryLockClientName False # requestCancelled))
   \<and> (i < n \<and> k < n \<and> reachesCycle e h i k \<and> envSelect e (cyclePoll e h i k) = Done \<longrightarrow>
        Run n e h = Some (ContextCancelled, cyclePoll e h i k @ requestCancelled))
   \<and> (i < n \<and> k < n \<and> reachesCycle e h i k \<and> envSelect e (cyclePoll e h i k) = Timer
        \<and> \<not> envIsAlive e (cyclePoll e h i k @ [TimeAfter (60 * Second)]) \<longrightarrow>
        Run n e h =
          Some (ConnectionDroppped, cyclePoll e h i k @ [TimeAfter (60 * Second), IsAlive False]))
   \<and> (\<forall>st h'. Run n e h = Some (st, h') \<longrightarrow>
        (\<exists>i<n. cancelledAtLock e h i
            \<and> st = ContextCancelled
            \<and> h' = lockWait i h @ TryLockClientName False # requestCancelled)
        \<or> (\<exists>i<n. \<exists>k<n. reachesCycle e h i k
            \<and> ((st = ContextCancelled
                 \<and> envSelect e (cyclePoll e h i k) = Done
                 \<and> h' = cyclePoll e h i k @ requestCancelled)
               \<or> (st = ConnectionDroppped
                 \<and> envSelect e (cyclePoll e h i k) = Timer
                 \<and> \<not> envIsAlive e (cyclePoll e h i k @ [TimeAfter (60 * Second)])
                 \<and> h' = cyclePoll e h i k @ [TimeAfter (60 * Second), IsAlive False]))))
   \<and> (\<forall>st h'. Run n e h = Some (st, h') \<longrightarrow>
        (st = ContextCancelled
           \<and> (\<exists>p. h' = p @ TryLockClientName False # requestCancelled
                  \<or> h' = p @ RetriveIntervalChainsAndRun sqlSelectIntervalChains # requestCancelled))
        \<or> (st = ConnectionDroppped
           \<and> (\<exists>p. h' = p @ [RetriveIntervalChainsAndRun sqlSelectIntervalChains,
                             TimeAfter (60 * Second), IsAlive False])))
   \<and> (\<forall>r m. Run n e h = Some r \<longrightarrow> Run (n + m) e h = Some r)"
proof -
  have a: "i < n \<and> cancelledAtLock e h i \<longrightarrow>
      Run n e h =
        Some (ContextCancelled, lockWait i h @ TryLockClientName False # requestCancelled)"
    using Run_at_lock by blast
  have b: "i < n \<and> k < n \<and> reachesCycle e h i k \<and> envSelect e (cyclePoll e h i k) = Done \<longrightarrow>
        Run n e h = Some (ContextCancelled, cyclePoll e h i k @ requestCancelled)"
  proof
    assume p: "i < n \<and> k < n \<and> reachesCycle e h i k \<and> envSelect e (cyclePoll e h i k) = Done"
    then obtain m where "Run n e h = foreverLoop (Suc m) e
        (cycleStart e k (mainEntry e (lockWait i h @ [TryLockClientName True])))"
      using Run_at_cycle [of i n k e h] by blast
    with p show "Run n e h = Some (ContextCancelled, cyclePoll e h i k @ requestCancelled)"
      by (simp only: foreverLoop_step cyclePoll_def) simp
  qed
  have c: "i < n \<and> k < n \<and> reachesCycle e h i k \<and> envSelect e (cyclePoll e h i k) = Timer
        \<and> \<not> envIsAlive e (cyclePoll e h i k @ [TimeAfter (60 * Second)]) \<longrightarrow>
        Run n e h =
          Some (ConnectionDroppped, cyclePoll e h i k @ [TimeAfter (60 * Second), IsAlive False])"
  proof
    assume p: "i < n \<and> k < n \<and> reachesCycle e h i k \<and> envSelect e (cyclePoll e h i k) = Timer
        \<and> \<not> envIsAlive e (cyclePoll e h i k @ [TimeAfter (60 * Second)])"
    then obtain m where "Run n e h = foreverLoop (Suc m) e
        (cycleStart e k (mainEntry e (lockWait i h @ [TryLockClientName True])))"
      using Run_at_cycle [of i n k e h] by blast
    with p show "Run n e h =
          Some (ConnectionDroppped, cyclePoll e h i k @ [TimeAfter (60 * Second), IsAlive False])"
      by (simp only: foreverLoop_step cyclePoll_def) (simp add: refetchTimeout_def)
  qed
  note d = Run_Some [of n e h]
  note f = Run_endings [of n e h]
  note g = Run_more [of n e h]
  from a b c d f g show ?thesis by blast
qed

theorem Run_outcomes_witness:
  "Run 2 lockedOutEnv [] =
     Some (ContextCancelled, lockWait 1 [] @ TryLockClientName False # requestCancelled)
   \<and> Run 2 cancellingEnv [] =
     Some (ContextCancelled, cyclePoll cancellingEnv [] 1 1 @ requestCancelled)
   \<and> Run 2 droppingEnv [] =
     Some (ConnectionDroppped,
           cyclePoll droppingEnv [] 1 1 @ [TimeAfter (60 * Second), IsAlive False])
   \<and> (\<exists>p. cyclePoll droppingEnv [] 1 1 @ [TimeAfter (60 * Second), IsAlive False] =
            p @ [RetriveIntervalChainsAndRun sqlSelectIntervalChains,
                 TimeAfter (60 * Second), IsAlive False])
   \<and> Run (2 + 3) droppingEnv [] =
     Some (ConnectionDroppped,
           cyclePoll droppingEnv [] 1 1 @ [TimeAfter (60 * Second), IsAlive False])"
proof -
  have lock: "(1::nat) < 2 \<and> cancelledAtLock lockedOutEnv [] 1"
    by (simp add: lockedOutEnv_def run_defs)
  have stop: "(1::nat) < 2 \<and> (1::nat) < 2 \<and> reachesCycle cancellingEnv [] 1 1
      \<and> envSelect cancellingEnv (cyclePoll cancellingEnv [] 1 1) = Done"
    by (simp add: cancellingEnv_def run_defs)
  have dead: "(1::nat) < 2 \<and> (1::nat) < 2 \<and> reachesCycle droppingEnv [] 1 1
      \<and> envSelect droppingEnv (cyclePoll droppingEnv [] 1 1) = Timer
      \<and> \<not> envIsAlive droppingEnv (cyclePoll droppingEnv [] 1 1 @ [TimeAfter (60 * Second)])"
    by (simp add: droppingEnv_def run_defs)
  have a: "Run 2 lockedOutEnv [] =
     Some (ContextCancelled, lockWait 1 [] @ TryLockClientName False # requestCancelled)"
    using Run_outcomes [of 1 2 lockedOutEnv "[]" 1] lock by blast
  have b: "Run 2 cancellingEnv [] =
     Some (ContextCancelled, cyclePoll cancellingEnv [] 1 1 @ requestCancelled)"
    using Run_outcomes [of 1 2 cancellingEnv "[]" 1] stop by blast
  note third = Run_outcomes [of 1 2 droppingEnv "[]" 1]
  have c: "Run 2 droppingEnv [] =
     Some (ConnectionDroppped,
           cyclePoll droppingEnv [] 1 1 @ [TimeAfter (60 * Second), IsAlive False])"
    using third dead by blast
  have d: "\<exists>p. cyclePoll droppingEnv [] 1 1 @ [TimeAfter (60 * Second), IsAlive False] =
            p @ [RetriveIntervalChainsAndRun sqlSelectIntervalChains,
                 TimeAfter (60 * Second), IsAlive False]"
    using third c by blast
  have f: "Run (2 + 3) droppingEnv [] =
     Some (ConnectionDroppped,
           cyclePoll droppingEnv [] 1 1 @ [TimeAfter (60 * Second), IsAlive False])"
    using third c by blast
  from a b c d f show ?thesis by blast
qed

subsection \<open>C10: an element of no known kind\<close>

text \<open>
  C10. For an element whose kind is none of \<open>SQL\<close>, \<open>SHELL\<close> and \<open>BUILTIN\<close> and whose
  parameter values are resolved, so that the \<^verbatim>\<open>switch\<close> is reached, the execution calls
  no task backend and returns 0; the loop records \<open>CHAIN_DONE\<close> for it and goes on with
  the next element.
\<close>

theorem unknown_kind_succeeds:
  assumes kind: "Kind x \<notin> {''SQL'', ''SHELL'', ''BUILTIN''}"
    and params: "fst (envGetChainParamValues e
                   (paramPoint (h @ [UpdateChainRunStatus (x\<lparr>ChainConfig := cfg\<rparr>) rid ''STARTED''])
                      (x\<lparr>ChainConfig := cfg\<rparr>))
                   (x\<lparr>ChainConfig := cfg\<rparr>))"
    and code: "executeChainElement e
                 (h @ [UpdateChainRunStatus (x\<lparr>ChainConfig := cfg\<rparr>) rid ''STARTED''])
                 (x\<lparr>ChainConfig := cfg\<rparr>) = (retCode, el', h2)"
  shows "retCode = 0
         \<and> backendCalls h2 = backendCalls h
         \<and> chainLoop e cfg cid rid h (x # xs) =
             chainLoop e cfg cid rid (h2 @ [UpdateChainRunStatus el' rid ''CHAIN_DONE'']) xs"
proof -
  from kind params code have rc: "retCode = 0" and calls: "backendCalls h2 = backendCalls h"
    by (auto simp: executeChainElement_def switchKind_def paramPoint_def Let_def backendCalls_def
             split: prod.splits if_splits)
  from rc code have "chainLoop e cfg cid rid h (x # xs) =
      chainLoop e cfg cid rid (h2 @ [UpdateChainRunStatus el' rid ''CHAIN_DONE'']) xs"
    by (simp add: Let_def)
  with rc calls show ?thesis by simp
qed

theorem unknown_kind_succeeds_witness:
  "fst (executeChainElement (sampleEnv [])
          [UpdateChainRunStatus (otherElement\<lparr>ChainConfig := 7\<rparr>) 1 ''STARTED'']
          (otherElement\<lparr>ChainConfig := 7\<rparr>)) = 0
   \<and> statuses (snd (chainLoop (sampleEnv []) 7 3 1 [] [otherElement, sqlElement]))
       = [''STARTED'', ''CHAIN_DONE'', ''STARTED'', ''CHAIN_DONE'']"
proof -
  let ?e = "sampleEnv []"
  let ?x = "otherElement\<lparr>ChainConfig := 7\<rparr>"
  let ?r = "executeChainElement ?e [UpdateChainRunStatus ?x 1 ''STARTED''] ?x"
  have kind: "Kind otherElement \<notin> {''SQL'', ''SHELL'', ''BUILTIN''}"
    by (simp add: otherElement_def)
  have params: "fst (envGetChainParamValues ?e
                  (paramPoint ([] @ [UpdateChainRunStatus ?x 1 ''STARTED'']) ?x) ?x)"
    by (simp add: sampleEnv_def)
  have code: "executeChainElement ?e ([] @ [UpdateChainRunStatus ?x 1 ''STARTED'']) ?x
                = (fst ?r, fst (snd ?r), snd (snd ?r))"
    by simp
  from unknown_kind_succeeds [OF kind params code, of 3 "[sqlElement]"]
  have zero: "fst ?r = 0"
    and cont: "chainLoop ?e 7 3 1 [] [otherElement, sqlElement] =
                 chainLoop ?e 7 3 1
                   (snd (snd ?r) @ [UpdateChainRunStatus (fst (snd ?r)) 1 ''CHAIN_DONE''])
                   [sqlElement]"
    by blast+
  have "statuses (snd (chainLoop ?e 7 3 1
                   (snd (snd ?r) @ [UpdateChainRunStatus (fst (snd ?r)) 1 ''CHAIN_DONE''])
                   [sqlElement])) = [''STARTED'', ''CHAIN_DONE'', ''STARTED'', ''CHAIN_DONE'']"
    by (simp add: sample_defs otherElement_def statuses_def)
  with zero cont show ?thesis
    by (simp only: simp_thms)
qed

end
